theory Spec2Isabelle
  imports Main
begin

section \<open>The topic matcher: \<^verbatim>\<open>MQTTMonitor.topicMatches\<close>\<close>

text \<open>
  \<^verbatim>\<open>topicMatches(topic, pattern)\<close> rewrites the pattern into the source text of a
  regular expression with three global replacements, anchors it with \<^verbatim>\<open>^\<close> and
  \<^verbatim>\<open>$\<close>, compiles it with \<^verbatim>\<open>new RegExp\<close> and returns \<^verbatim>\<open>regex.test(topic)\<close>.
  The model follows the same three stages. A character of the model is one code unit of
  the JavaScript string, and the model covers the strings whose code units are below 256.

  \<open>replace_all c r s\<close> is \<^verbatim>\<open>s.replace(/c/g, r)\<close> for a one-character pattern and a
  replacement text without substitution patterns: none of the three replacement texts
  holds a \<^verbatim>\<open>$\<close> that is followed by another character, so each is inserted as it is.
\<close>

definition replace_all :: "char \<Rightarrow> string \<Rightarrow> string \<Rightarrow> string" where
  "replace_all c r s = concat (map (\<lambda>x. if x = c then r else [x]) s)"

text \<open>
  The regular expressions of the JavaScript runtime are modelled on a fragment of their
  syntax: the atoms are a literal character, an escaped syntax character
  (a backslash and the character), the dot (any character but a line terminator) and the class
  \<^verbatim>\<open>[^/]\<close>; an atom may carry one of the quantifiers \<^verbatim>\<open>*\<close>, \<^verbatim>\<open>+\<close>,
  \<^verbatim>\<open>?\<close>, greedy or lazy (which differ in the match found, not in whether one
  exists); the whole expression is anchored at both ends. Compiling fails with
  \<open>SyntaxError\<close> where the runtime throws (a quantifier with nothing to repeat, a
  backslash at the end), and with \<open>Unsupported\<close> for every construct outside the
  fragment (groups, alternatives, other classes and escapes, braces, inner anchors), about
  which the model says nothing.
\<close>

datatype atom = Chr char | Dot | NotSlash

datatype quant = Star | Plus | Opt

datatype token = TAtom atom | TQuant quant | TBegin | TEnd

datatype regex_error = SyntaxError | Unsupported

definition syntax_chars :: "char list" where
  "syntax_chars = [CHR ''^'', CHR ''$'', CHR 0x5C, CHR ''.'', CHR ''*'', CHR ''+'', CHR ''?'',
     CHR ''('', CHR '')'', CHR ''['', CHR '']'', CHR ''{'', CHR ''}'', CHR ''|'']"

definition rcons :: "'a \<Rightarrow> regex_error + 'a list \<Rightarrow> regex_error + 'a list" where
  "rcons x r = (case r of Inl e \<Rightarrow> Inl e | Inr xs \<Rightarrow> Inr (x # xs))"

fun re_lex :: "string \<Rightarrow> regex_error + token list" where
  "re_lex [] = Inr []"
| "re_lex (c # r) =
    (if c = CHR 0x5C then
       (case r of
          [] \<Rightarrow> Inl SyntaxError
        | d # r' \<Rightarrow>
            if d \<in> set syntax_chars \<or> d = CHR ''/'' then rcons (TAtom (Chr d)) (re_lex r')
            else Inl Unsupported)
     else if c = CHR ''['' then
       (if take 3 r = ''^/]'' then rcons (TAtom NotSlash) (re_lex (drop 3 r))
        else Inl Unsupported)
     else if c = CHR ''.'' then rcons (TAtom Dot) (re_lex r)
     else if c = CHR ''*'' then rcons (TQuant Star) (re_lex r)
     else if c = CHR ''+'' then rcons (TQuant Plus) (re_lex r)
     else if c = CHR ''?'' then rcons (TQuant Opt) (re_lex r)
     else if c = CHR ''^'' then rcons TBegin (re_lex r)
     else if c = CHR ''$'' then rcons TEnd (re_lex r)
     else if c \<in> set syntax_chars then Inl Unsupported
     else rcons (TAtom (Chr c)) (re_lex r))"

fun re_terms :: "token list \<Rightarrow> regex_error + (atom \<times> quant option) list" where
  "re_terms [] = Inr []"
| "re_terms (TAtom a # ts) =
     (case ts of
        TQuant q # ts' \<Rightarrow>
          (case ts' of
             TQuant Opt # ts'' \<Rightarrow> rcons (a, Some q) (re_terms ts'')
           | _ \<Rightarrow> rcons (a, Some q) (re_terms ts'))
      | _ \<Rightarrow> rcons (a, None) (re_terms ts))"
| "re_terms (TQuant q # ts) = Inl SyntaxError"
| "re_terms (TBegin # ts) = Inl Unsupported"
| "re_terms (TEnd # ts) = Inl Unsupported"

fun atom_ok :: "atom \<Rightarrow> char \<Rightarrow> bool" where
  "atom_ok (Chr c) x = (x = c)"
| "atom_ok Dot x = (x \<noteq> CHR 0x0A \<and> x \<noteq> CHR 0x0D)"
| "atom_ok NotSlash x = (x \<noteq> CHR ''/'')"

fun re_match :: "(atom \<times> quant option) list \<Rightarrow> string \<Rightarrow> bool" where
  "re_match [] s = (s = [])"
| "re_match ((a, None) # ts) s =
     (case s of [] \<Rightarrow> False | x # xs \<Rightarrow> atom_ok a x \<and> re_match ts xs)"
| "re_match ((a, Some Opt) # ts) s =
     (re_match ts s \<or> (case s of [] \<Rightarrow> False | x # xs \<Rightarrow> atom_ok a x \<and> re_match ts xs))"
| "re_match ((a, Some Star) # ts) s =
     (re_match ts s \<or>
      (case s of [] \<Rightarrow> False | x # xs \<Rightarrow> atom_ok a x \<and> re_match ((a, Some Star) # ts) xs))"
| "re_match ((a, Some Plus) # ts) s =
     (case s of [] \<Rightarrow> False | x # xs \<Rightarrow> atom_ok a x \<and> re_match ((a, Some Star) # ts) xs)"

definition regexp_test :: "string \<Rightarrow> string \<Rightarrow> regex_error + bool" where
  "regexp_test src s =
     (case re_lex src of
        Inl e \<Rightarrow> Inl e
      | Inr toks \<Rightarrow>
          (case toks of
             TBegin # rest \<Rightarrow>
               (if rest \<noteq> [] \<and> last rest = TEnd then
                  (case re_terms (butlast rest) of
                     Inl e \<Rightarrow> Inl e
                   | Inr ts \<Rightarrow> Inr (re_match ts s))
                else Inl Unsupported)
           | _ \<Rightarrow> Inl Unsupported))"

definition topicMatches :: "string \<Rightarrow> string \<Rightarrow> regex_error + bool" where
  "topicMatches topic pattern =
     (let regexPattern =
            replace_all (CHR ''$'') [CHR 0x5C, CHR ''$'']
              (replace_all (CHR ''#'') ''.*''
                (replace_all (CHR ''+'') ''[^/]+'' pattern))
      in regexp_test (''^'' @ regexPattern @ ''$'') topic)"

text \<open>Vocabulary for the statements about patterns: a plain character stands for itself
  in the regular expression; a simple character is plain or one of the four characters
  that \<open>topicMatches\<close> or the runtime give a meaning inside the fragment.\<close>

definition plain :: "char \<Rightarrow> bool" where
  "plain c \<longleftrightarrow> c \<notin> set syntax_chars \<and> c \<noteq> CHR ''#''"

definition simple :: "char \<Rightarrow> bool" where
  "simple c \<longleftrightarrow>
     plain c \<or> c = CHR ''.'' \<or> c = CHR ''$'' \<or> c = CHR ''+'' \<or> c = CHR ''#''"

definition expand1 :: "char \<Rightarrow> string" where
  "expand1 c =
     (if c = CHR ''+'' then ''[^/]+''
      else if c = CHR ''#'' then ''.*''
      else if c = CHR ''$'' then [CHR 0x5C, CHR ''$'']
      else [c])"

definition term1 :: "char \<Rightarrow> atom \<times> quant option" where
  "term1 c =
     (if c = CHR ''+'' then (NotSlash, Some Plus)
      else if c = CHR ''#'' then (Dot, Some Star)
      else if c = CHR ''.'' then (Dot, None)
      else (Chr c, None))"

definition tok1 :: "char \<Rightarrow> token list" where
  "tok1 c = (case term1 c of (a, None) \<Rightarrow> [TAtom a] | (a, Some q) \<Rightarrow> [TAtom a, TQuant q])"

definition radd :: "'a list \<Rightarrow> regex_error + 'a list \<Rightarrow> regex_error + 'a list" where
  "radd xs r = (case r of Inl e \<Rightarrow> Inl e | Inr ys \<Rightarrow> Inr (xs @ ys))"

definition no_quant_ahead :: "token list \<Rightarrow> bool" where
  "no_quant_ahead ts = (case ts of TQuant q # r \<Rightarrow> False | _ \<Rightarrow> True)"

definition need_slash :: "(atom \<times> quant option) list \<Rightarrow> nat" where
  "need_slash ts =
     length (filter (\<lambda>t. t = (Chr (CHR ''/''), None) \<or> t = (Chr (CHR ''/''), Some Plus)) ts)"

definition line_terminator :: "char \<Rightarrow> bool" where
  "line_terminator c \<longleftrightarrow> c = CHR 0x0A \<or> c = CHR 0x0D"


section \<open>The monitor: broker sessions, viewer sessions and fan-out\<close>

text \<open>
  The state of an \<^verbatim>\<open>MQTTMonitor\<close>. Objects that the code shares by reference (the
  MQTT clients returned by \<^verbatim>\<open>mqtt.connect\<close>, the WebSocket objects) live in stores
  indexed by a handle; the two JavaScript Maps hold handles.

  Keys of a JavaScript Map compare by SameValueZero, so the number 1 and the string "1"
  are different keys.
\<close>

datatype js_key = KNum int | KStr string

record connection =
  c_id :: js_key
  c_name :: string
  c_host :: string
  c_port :: int
  c_username :: "string option"
  c_password :: "string option"
  c_client_id :: "string option"
  c_keepalive :: "int option"
  c_clean_session :: "bool option"

text \<open>\<open>c_clean_session\<close> is \<open>Some b\<close> when the field holds the JavaScript boolean
  \<open>b\<close>, and \<open>None\<close> for every other value (absent, null, a number).\<close>

text \<open>Two texts that the code builds by interpolation are kept structured:
  \<open>HostPort p h n\<close> is the URL made of protocol \<open>p\<close>, host \<open>h\<close> and port \<open>n\<close>, and
  \<open>Generated t\<close> is the client identifier made of the fixed prefix and the time \<open>t\<close>.\<close>

datatype broker_url = Url string | HostPort string string int

datatype client_ident = Given string | Generated int

record mqtt_options =
  clientId :: client_ident
  keepalive :: int
  clean :: bool
  reconnectPeriod :: int
  connectTimeout :: int
  protocol :: "string option"
  rejectUnauthorized :: "bool option"
  secureProtocol :: "string option"
  username :: "string option"
  password :: "string option"

text \<open>An MQTT client object. \<open>t_conn\<close> and \<open>t_ws\<close> are the \<^verbatim>\<open>connection.id\<close> and
  the \<^verbatim>\<open>wsClientId\<close> that the handlers registered in \<^verbatim>\<open>connectMQTT\<close> close over;
  \<open>connected\<close> is the client library's flag; \<open>pauseMonitoring\<close> is the property
  \<^verbatim>\<open>_pauseMonitoring\<close> (absent, hence falsy, on a new client); \<open>end_calls\<close> counts
  the calls of \<^verbatim>\<open>client.end()\<close>, and \<open>subscribe_calls\<close> records the calls of
  \<^verbatim>\<open>client.subscribe\<close>.\<close>

record transport =
  t_conn :: js_key
  t_ws :: "string option"
  t_url :: broker_url
  t_options :: mqtt_options
  connected :: bool
  pauseMonitoring :: bool
  end_calls :: nat
  subscribe_calls :: "(string \<times> int) list"

record message_data =
  connection_id :: js_key
  topic :: string
  message :: string
  qos :: int
  retained :: bool
  timestamp :: int

datatype event =
    StatusConnected js_key
  | StatusDisconnected js_key
  | MessageEvt message_data
  | PingEvt int

datatype ready_state = CONNECTING | OPEN | CLOSING | CLOSED

text \<open>A WebSocket object: its \<^verbatim>\<open>readyState\<close>, the texts it has been sent, and whether
  a call of its \<^verbatim>\<open>send\<close> throws (decided by the WebSocket library and the network,
  hence a parameter of the model).\<close>

record socket =
  readyState :: ready_state
  send_throws :: bool
  sent :: "event list"

record client_info =
  ws :: nat
  mqttConnections :: "js_key list"
  connectedAt :: int
  lastPong :: int

text \<open>A row of the table \<^verbatim>\<open>mqtt_topics\<close> of the configuration store; both id columns
  are INTEGER columns.\<close>

record topic_row =
  tr_id :: int
  tr_connection_id :: int
  tr_topic :: string
  tr_qos :: int
  tr_active :: bool

text \<open>\<open>wsClients\<close> is a Map from \<^verbatim>\<open>wsClientId\<close> to the client's record, kept as an
  association list in insertion order (the order of \<^verbatim>\<open>forEach\<close>); \<open>mqttConnections\<close>
  is a Set in insertion order; \<open>wss_clients\<close> is the server's set \<^verbatim>\<open>wss.clients\<close>.
  \<open>broadcasts\<close> records the arguments of the calls of \<^verbatim>\<open>broadcast\<close>, in order.\<close>

record monitor =
  mqttClients :: "js_key \<rightharpoonup> nat"
  wsClients :: "(string \<times> client_info) list"
  transports :: "nat \<Rightarrow> transport"
  n_transports :: nat
  sockets :: "nat \<Rightarrow> socket"
  wss_clients :: "nat list"
  db_topics :: "topic_row list"
  broadcasts :: "event list"

subsection \<open>Fan-out\<close>

text \<open>\<^verbatim>\<open>broadcast(data)\<close>: \<^verbatim>\<open>forEach\<close> over \<^verbatim>\<open>wss.clients\<close>, sending to each
  client whose state is OPEN. The loop has no handler around \<^verbatim>\<open>send\<close>: an exception
  leaves the loop and the function. The result says whether an exception escaped.\<close>

fun broadcast_loop :: "event \<Rightarrow> nat list \<Rightarrow> (nat \<Rightarrow> socket) \<Rightarrow> bool \<times> (nat \<Rightarrow> socket)" where
  "broadcast_loop ev [] sk = (False, sk)"
| "broadcast_loop ev (i # is) sk =
     (if readyState (sk i) = OPEN then
        (if send_throws (sk i) then (True, sk)
         else broadcast_loop ev is (sk(i := (sk i)\<lparr>sent := sent (sk i) @ [ev]\<rparr>)))
      else broadcast_loop ev is sk)"

definition broadcast :: "event \<Rightarrow> monitor \<Rightarrow> bool \<times> monitor" where
  "broadcast ev s =
     (case broadcast_loop ev (wss_clients s) (sockets s) of
        (thrown, sk) \<Rightarrow> (thrown, s\<lparr>sockets := sk, broadcasts := broadcasts s @ [ev]\<rparr>))"

subsection \<open>Broker sessions\<close>

definition truthy_string :: "string option \<Rightarrow> bool" where
  "truthy_string x = (case x of None \<Rightarrow> False | Some v \<Rightarrow> v \<noteq> [])"

definition starts_with :: "string \<Rightarrow> string \<Rightarrow> bool" where
  "starts_with s p = (take (length p) s = p)"

text \<open>\<^verbatim>\<open>connectMQTT(connection, wsClientId)\<close> up to the call of \<^verbatim>\<open>mqtt.connect\<close>:
  the options and the URL. \<open>now\<close> is \<^verbatim>\<open>Date.now()\<close>.\<close>

definition base_options :: "connection \<Rightarrow> int \<Rightarrow> mqtt_options" where
  "base_options c now =
     \<lparr> clientId = (if truthy_string (c_client_id c) then Given (the (c_client_id c))
                   else Generated now),
       keepalive = (case c_keepalive c of None \<Rightarrow> 60 | Some k \<Rightarrow> if k = 0 then 60 else k),
       clean = (c_clean_session c \<noteq> Some False),
       reconnectPeriod = 5000,
       connectTimeout = 30000,
       protocol = None,
       rejectUnauthorized = None,
       secureProtocol = None,
       username = None,
       password = None \<rparr>"

definition with_tls :: "mqtt_options \<Rightarrow> mqtt_options" where
  "with_tls opts =
     opts\<lparr>rejectUnauthorized := Some False, secureProtocol := Some ''TLSv1_2_method''\<rparr>"

definition with_credentials :: "connection \<Rightarrow> mqtt_options \<Rightarrow> mqtt_options" where
  "with_credentials c opts =
     (let o1 = (if truthy_string (c_username c) then opts\<lparr>username := c_username c\<rparr> else opts)
      in if truthy_string (c_password c) then o1\<lparr>password := c_password c\<rparr> else o1)"

definition connect_args :: "connection \<Rightarrow> int \<Rightarrow> broker_url \<times> mqtt_options" where
  "connect_args c now =
     (let options = base_options c now in
      if starts_with (c_host c) ''wss://'' \<or> starts_with (c_host c) ''ws://'' then
        (Url (c_host c),
         with_credentials c
           (if starts_with (c_host c) ''wss://''
            then with_tls (options\<lparr>protocol := Some ''wss''\<rparr>) else options))
      else
        (let prot = (if c_port c = 8883 \<or> c_port c = 443 then ''mqtts'' else ''mqtt'') in
         (HostPort prot (c_host c) (c_port c),
          with_credentials c (if prot = ''mqtts'' then with_tls options else options))))"

text \<open>\<^verbatim>\<open>connectMQTT\<close> itself: it computes the arguments and calls \<^verbatim>\<open>mqtt.connect\<close>,
  which returns a new client object, and registers the four handlers on it. There is no
  lookup in \<^verbatim>\<open>mqttClients\<close> before the call. The new client's handle is the old value of
  \<open>n_transports\<close>.\<close>

definition connectMQTT :: "connection \<Rightarrow> string option \<Rightarrow> int \<Rightarrow> monitor \<Rightarrow> monitor" where
  "connectMQTT c wsClientId now s =
     (case connect_args c now of
        (brokerUrl, options) \<Rightarrow>
          s\<lparr>transports := (transports s)(n_transports s :=
               \<lparr> t_conn = c_id c, t_ws = wsClientId, t_url = brokerUrl, t_options = options,
                 connected = False, pauseMonitoring = False, end_calls = 0,
                 subscribe_calls = [] \<rparr>),
            n_transports := Suc (n_transports s)\<rparr>)"

text \<open>The configuration store. \<open>db_topics\<close> is the content of the table
  \<^verbatim>\<open>mqtt_topics\<close>; \<^verbatim>\<open>Database.updateTopicStatus\<close> writes the active flag of a row
  (\<open>topicId\<close> is the row id that the statement's parameter denotes). A read
  (\<^verbatim>\<open>db.getTopics\<close>) is asynchronous and may be rejected, and which rows it returns, in
  which order, is decided by the store's own comparison and ordering rules: the handlers
  below take the outcome of their read as the parameter \<open>db_result\<close>, \<open>None\<close> when the
  promise is rejected and \<open>Some rows\<close> when it resolves to \<open>rows\<close>.\<close>

definition updateTopicStatus :: "int \<Rightarrow> bool \<Rightarrow> monitor \<Rightarrow> monitor" where
  "updateTopicStatus topicId active s =
     s\<lparr>db_topics := map (\<lambda>t. if tr_id t = topicId then t\<lparr>tr_active := active\<rparr> else t)
                        (db_topics s)\<rparr>"

text \<open>\<^verbatim>\<open>subscribeToTopics(connectionId)\<close>; a rejected read is caught and logged.\<close>

definition subscribeToTopics :: "js_key \<Rightarrow> topic_row list option \<Rightarrow> monitor \<Rightarrow> monitor" where
  "subscribeToTopics cid db_result s =
     (case db_result of
        None \<Rightarrow> s
      | Some topics \<Rightarrow>
          (case mqttClients s cid of
             None \<Rightarrow> s
           | Some h \<Rightarrow>
               if connected (transports s h) then
                 s\<lparr>transports := (transports s)(h := (transports s h)
                    \<lparr>subscribe_calls := subscribe_calls (transports s h) @
                       map (\<lambda>t. (tr_topic t, tr_qos t)) (filter tr_active topics)\<rparr>)\<rparr>
               else s))"

definition set_add :: "'a \<Rightarrow> 'a list \<Rightarrow> 'a list" where
  "set_add x xs = (if x \<in> set xs then xs else xs @ [x])"

definition map_entry :: "string \<Rightarrow> (client_info \<Rightarrow> client_info) \<Rightarrow>
    (string \<times> client_info) list \<Rightarrow> (string \<times> client_info) list" where
  "map_entry k f xs = map (\<lambda>(k', v). if k' = k then (k', f v) else (k', v)) xs"

text \<open>The handler of the client's \<^verbatim>\<open>connect\<close> event (the library has set
  \<^verbatim>\<open>client.connected\<close>). The entry of \<^verbatim>\<open>connection.id\<close> in \<^verbatim>\<open>mqttClients\<close> is
  overwritten with this client. An exception of \<^verbatim>\<open>broadcast\<close> ends the handler.\<close>

definition on_connect :: "nat \<Rightarrow> topic_row list option \<Rightarrow> monitor \<Rightarrow> bool \<times> monitor" where
  "on_connect h db_result s =
     (let cid = t_conn (transports s h);
          s1 = s\<lparr>transports := (transports s)(h := (transports s h)\<lparr>connected := True\<rparr>),
                 mqttClients := (mqttClients s)(cid \<mapsto> h)\<rparr>;
          s2 = (if truthy_string (t_ws (transports s h)) \<and>
                   map_of (wsClients s1) (the (t_ws (transports s h))) \<noteq> None
                then s1\<lparr>wsClients := map_entry (the (t_ws (transports s h)))
                        (\<lambda>ci. ci\<lparr>mqttConnections := set_add cid (mqttConnections ci)\<rparr>)
                        (wsClients s1)\<rparr>
                else s1)
      in case broadcast (StatusConnected cid) s2 of
           (True, s3) \<Rightarrow> (True, s3)
         | (False, s3) \<Rightarrow> (False, subscribeToTopics cid db_result s3))"

text \<open>The handler of the client's \<^verbatim>\<open>close\<close> event (the library has cleared
  \<^verbatim>\<open>client.connected\<close>): the entry of \<^verbatim>\<open>connection.id\<close> is deleted from
  \<^verbatim>\<open>mqttClients\<close> and from every viewer's set, and the status is broadcast. The
  configuration store is not touched.\<close>

definition on_close :: "nat \<Rightarrow> monitor \<Rightarrow> bool \<times> monitor" where
  "on_close h s =
     (let cid = t_conn (transports s h);
          s1 = s\<lparr>transports := (transports s)(h := (transports s h)\<lparr>connected := False\<rparr>),
                 mqttClients := (mqttClients s)(cid := None)\<rparr>;
          s2 = s1\<lparr>wsClients :=
                 map (\<lambda>(k, ci). (k, ci\<lparr>mqttConnections := removeAll cid (mqttConnections ci)\<rparr>))
                   (wsClients s1)\<rparr>
      in broadcast (StatusDisconnected cid) s2)"

text \<open>The handler of the client's \<^verbatim>\<open>message\<close> event. Up to its
  \<^verbatim>\<open>await this.db.getTopics\<close> the handler only logs: \<open>on_message_received\<close> is what
  it keeps of the event. Other handlers may run before the read completes;
  \<open>on_message_resumed\<close> is the rest of the handler, run in the state \<open>s\<close> in which it
  resumes, with \<open>now\<close> the time read there. The pause flag is the one the receiving
  client has in that state.

  The body is one \<^verbatim>\<open>try\<close> block whose handler logs the error: a rejected read, an
  exception of \<^verbatim>\<open>topicMatches\<close> or of \<^verbatim>\<open>broadcast\<close> all end in the state reached so
  far. The filter that computes \<^verbatim>\<open>matchingWildcards\<close> calls \<^verbatim>\<open>topicMatches\<close> from
  left to right on the active rows that hold a wildcard; the calls of the logging branch
  repeat calls that have returned.

  What \<^verbatim>\<open>topicMatches\<close> does with a pattern outside the modelled fragment of regular
  expressions is decided by the runtime and is the parameter \<open>rx\<close>: \<open>rx topic pattern\<close> is
  \<open>None\<close> when the call throws and \<open>Some b\<close> when it returns \<open>b\<close>. Inside the
  fragment \<open>rx\<close> is not consulted.\<close>

record pending_message =
  pm_client :: nat
  pm_topic :: string
  pm_payload :: string
  pm_qos :: int
  pm_retain :: bool

definition on_message_received :: "nat \<Rightarrow> string \<Rightarrow> string \<Rightarrow> int \<Rightarrow> bool \<Rightarrow> pending_message" where
  "on_message_received h tp payload q retain =
     \<lparr> pm_client = h, pm_topic = tp, pm_payload = payload, pm_qos = q, pm_retain = retain \<rparr>"

definition has_wildcard :: "string \<Rightarrow> bool" where
  "has_wildcard p \<longleftrightarrow> CHR ''#'' \<in> set p \<or> CHR ''+'' \<in> set p"

definition topicMatches_outcome ::
    "(string \<Rightarrow> string \<Rightarrow> bool option) \<Rightarrow> string \<Rightarrow> string \<Rightarrow> bool option" where
  "topicMatches_outcome rx tp pattern =
     (case topicMatches tp pattern of
        Inr b \<Rightarrow> Some b
      | Inl SyntaxError \<Rightarrow> None
      | Inl Unsupported \<Rightarrow> rx tp pattern)"

fun matchingWildcards ::
    "(string \<Rightarrow> string \<Rightarrow> bool option) \<Rightarrow> string \<Rightarrow> topic_row list \<Rightarrow> topic_row list option" where
  "matchingWildcards rx tp [] = Some []"
| "matchingWildcards rx tp (t # ts) =
     (if has_wildcard (tr_topic t) then
        (case topicMatches_outcome rx tp (tr_topic t) of
           None \<Rightarrow> None
         | Some b \<Rightarrow>
             (case matchingWildcards rx tp ts of
                None \<Rightarrow> None
              | Some r \<Rightarrow> Some (if b then t # r else r)))
      else matchingWildcards rx tp ts)"

definition message_event :: "pending_message \<Rightarrow> int \<Rightarrow> monitor \<Rightarrow> event" where
  "message_event p now s =
     MessageEvt \<lparr> connection_id = t_conn (transports s (pm_client p)), topic = pm_topic p,
       message = pm_payload p, qos = pm_qos p, retained = pm_retain p, timestamp = now \<rparr>"

definition on_message_resumed ::
    "pending_message \<Rightarrow> int \<Rightarrow> topic_row list option \<Rightarrow> (string \<Rightarrow> string \<Rightarrow> bool option) \<Rightarrow>
     monitor \<Rightarrow> monitor" where
  "on_message_resumed p now db_result rx s =
     (case db_result of
        None \<Rightarrow> s
      | Some topics \<Rightarrow>
          (case matchingWildcards rx (pm_topic p) (filter tr_active topics) of
             None \<Rightarrow> s
           | Some matching \<Rightarrow>
               if \<not> pauseMonitoring (transports s (pm_client p)) then
                 snd (broadcast (message_event p now s) s)
               else s))"

text \<open>\<^verbatim>\<open>disconnectMQTT(connectionId)\<close>.\<close>

definition disconnectMQTT :: "js_key \<Rightarrow> monitor \<Rightarrow> monitor" where
  "disconnectMQTT cid s =
     (case mqttClients s cid of
        None \<Rightarrow> s
      | Some h \<Rightarrow>
          s\<lparr>transports := (transports s)(h := (transports s h)
               \<lparr>end_calls := Suc (end_calls (transports s h))\<rparr>),
            mqttClients := (mqttClients s)(cid := None)\<rparr>)"

text \<open>The route \<^verbatim>\<open>POST /api/pause-monitoring\<close>; \<open>paused\<close> is the truth value of the
  request's field.\<close>

datatype http_response = Json200 string | Error404 string

definition pause_monitoring :: "js_key \<Rightarrow> bool \<Rightarrow> monitor \<Rightarrow> http_response \<times> monitor" where
  "pause_monitoring connectionId paused s =
     (case mqttClients s connectionId of
        Some h \<Rightarrow>
          (Json200 (if paused then ''Message monitoring paused'' else ''Message monitoring resumed''),
           s\<lparr>transports := (transports s)(h := (transports s h)\<lparr>pauseMonitoring := paused\<rparr>)\<rparr>)
      | None \<Rightarrow> (Error404 ''Connection not found'', s))"

subsection \<open>Viewer sessions\<close>

text \<open>\<^verbatim>\<open>handleWebSocketDisconnect(wsClientId)\<close>: every connection in the viewer's set
  is disconnected, then the viewer is deleted. No other viewer's set is consulted.\<close>

definition handleWebSocketDisconnect :: "string \<Rightarrow> monitor \<Rightarrow> monitor" where
  "handleWebSocketDisconnect wsClientId s =
     (case map_of (wsClients s) wsClientId of
        None \<Rightarrow> s
      | Some clientInfo \<Rightarrow>
          (let s1 = foldl (\<lambda>st cid. disconnectMQTT cid st) s (mqttConnections clientInfo)
           in s1\<lparr>wsClients := filter (\<lambda>(k, v). k \<noteq> wsClientId) (wsClients s1)\<rparr>))"

text \<open>The \<^verbatim>\<open>pong\<close> case of the viewer's message handler.\<close>

definition ws_pong :: "string \<Rightarrow> int \<Rightarrow> monitor \<Rightarrow> monitor" where
  "ws_pong wsClientId now s =
     s\<lparr>wsClients := map_entry wsClientId (\<lambda>ci. ci\<lparr>lastPong := now\<rparr>) (wsClients s)\<rparr>"

text \<open>One tick of the interval of \<^verbatim>\<open>startHeartbeat\<close>: \<^verbatim>\<open>forEach\<close> over
  \<^verbatim>\<open>wsClients\<close>. A visit deletes at most the visited entry, so the loop visits the
  keys present at the start, each with its current record. \<open>lastPong\<close> is not read.\<close>

definition heartbeat_visit :: "int \<Rightarrow> monitor \<Rightarrow> string \<Rightarrow> monitor" where
  "heartbeat_visit now s wsClientId =
     (case map_of (wsClients s) wsClientId of
        None \<Rightarrow> s
      | Some clientInfo \<Rightarrow>
          if readyState (sockets s (ws clientInfo)) = OPEN then
            (if send_throws (sockets s (ws clientInfo)) then handleWebSocketDisconnect wsClientId s
             else s\<lparr>sockets := (sockets s)(ws clientInfo := (sockets s (ws clientInfo))
                    \<lparr>sent := sent (sockets s (ws clientInfo)) @ [PingEvt now]\<rparr>)\<rparr>)
          else handleWebSocketDisconnect wsClientId s)"

definition heartbeat :: "int \<Rightarrow> monitor \<Rightarrow> monitor" where
  "heartbeat now s = foldl (heartbeat_visit now) s (map fst (wsClients s))"


section \<open>Vocabulary of the statements and example states\<close>

text \<open>A viewer's channel is alive at a heartbeat when its WebSocket is open and accepts the
  probe. \<open>transports_of cid s\<close> lists the clients opened so far for a connection id.\<close>

definition viewer_alive :: "monitor \<Rightarrow> client_info \<Rightarrow> bool" where
  "viewer_alive s ci \<longleftrightarrow>
     readyState (sockets s (ws ci)) = OPEN \<and> \<not> send_throws (sockets s (ws ci))"

definition transports_of :: "js_key \<Rightarrow> monitor \<Rightarrow> nat list" where
  "transports_of cid s = filter (\<lambda>h. t_conn (transports s h) = cid) [0..<n_transports s]"

text \<open>A channel blocks a broadcast when it is open and its send throws. \<open>deliveries s i\<close>
  is the number of times a broadcast in state \<open>s\<close> sends to channel \<open>i\<close>: for an open
  channel, the number of its occurrences in \<^verbatim>\<open>wss.clients\<close> before the first blocking
  channel (one, when nothing blocks and the channel is in the set); for any other, none.\<close>

definition blocked :: "(nat \<Rightarrow> socket) \<Rightarrow> nat \<Rightarrow> bool" where
  "blocked sk j \<longleftrightarrow> readyState (sk j) = OPEN \<and> send_throws (sk j)"

definition deliveries :: "monitor \<Rightarrow> nat \<Rightarrow> nat" where
  "deliveries s i =
     (if readyState (sockets s i) = OPEN
      then count_list (takeWhile (\<lambda>j. \<not> blocked (sockets s) j) (wss_clients s)) i else 0)"

text \<open>The loop of \<^verbatim>\<open>handleWebSocketDisconnect\<close> over the viewer's set.\<close>

abbreviation disconnect_all :: "monitor \<Rightarrow> js_key list \<Rightarrow> monitor" where
  "disconnect_all s cs \<equiv> foldl (\<lambda>st cid. disconnectMQTT cid st) s cs"


text \<open>Example states. In \<open>monitor0\<close> both Maps are empty, as the constructor leaves them;
  the cells of the two stores hold default objects. \<open>one_bound\<close> and \<open>both_bound\<close> are
  reached from two registered viewers through \<^verbatim>\<open>connectMQTT\<close> and the \<^verbatim>\<open>connect\<close>
  event: first viewer \<^verbatim>\<open>ws_a\<close>, then viewer \<^verbatim>\<open>ws_b\<close> connect to broker 1.\<close>

definition fresh_socket :: socket where
  "fresh_socket = \<lparr> readyState = OPEN, send_throws = False, sent = [] \<rparr>"

definition idle_transport :: transport where
  "idle_transport =
     \<lparr> t_conn = KNum 0, t_ws = None, t_url = Url [], 
       t_options = \<lparr> clientId = Generated 0, keepalive = 60, clean = True,
         reconnectPeriod = 5000, connectTimeout = 30000, protocol = None,
         rejectUnauthorized = None, secureProtocol = None, username = None, password = None \<rparr>,
       connected = False, pauseMonitoring = False, end_calls = 0, subscribe_calls = [] \<rparr>"

definition monitor0 :: monitor where
  "monitor0 =
     \<lparr> mqttClients = Map.empty, wsClients = [], transports = (\<lambda>h. idle_transport),
       n_transports = 0, sockets = (\<lambda>i. fresh_socket), wss_clients = [], db_topics = [],
       broadcasts = [] \<rparr>"

definition viewer :: "nat \<Rightarrow> client_info" where
  "viewer i = \<lparr> ws = i, mqttConnections = [], connectedAt = 0, lastPong = 0 \<rparr>"

definition two_viewers :: monitor where
  "two_viewers =
     monitor0\<lparr>wsClients := [(''ws_a'', viewer 0), (''ws_b'', viewer 1)], wss_clients := [0, 1]\<rparr>"

definition broker1 :: connection where
  "broker1 =
     \<lparr> c_id = KNum 1, c_name = ''broker'', c_host = ''localhost'', c_port = 1883,
       c_username = None, c_password = None, c_client_id = None, c_keepalive = None,
       c_clean_session = None \<rparr>"

definition one_bound :: monitor where
  "one_bound = snd (on_connect 0 (Some []) (connectMQTT broker1 (Some ''ws_a'') 10 two_viewers))"

definition both_bound :: monitor where
  "both_bound = snd (on_connect 1 (Some []) (connectMQTT broker1 (Some ''ws_b'') 20 one_bound))"

definition star_row :: topic_row where
  "star_row = \<lparr> tr_id = 1, tr_connection_id = 1, tr_topic = ''*/#'', tr_qos = 0,
     tr_active = True \<rparr>"

definition sensors_row :: topic_row where
  "sensors_row = \<lparr> tr_id = 2, tr_connection_id = 1, tr_topic = ''sensors/#'', tr_qos = 0,
     tr_active = True \<rparr>"

definition second_throws :: monitor where
  "second_throws =
     monitor0\<lparr>wss_clients := [0, 1, 2],
       sockets := (\<lambda>i. if i = 1 then fresh_socket\<lparr>send_throws := True\<rparr> else fresh_socket)\<rparr>"

definition a_lost :: monitor where
  "a_lost = both_bound\<lparr>sockets := (sockets both_bound)(0 := fresh_socket\<lparr>readyState := CLOSED\<rparr>)\<rparr>"

definition paused :: monitor where
  "paused = snd (pause_monitoring (KNum 1) True one_bound)"

definition paused_then_resumed :: monitor where
  "paused_then_resumed = snd (pause_monitoring (KNum 1) False paused)"

definition stored :: monitor where
  "stored = updateTopicStatus 1 False (both_bound\<lparr>db_topics := [star_row, sensors_row]\<rparr>)"

definition arrival :: pending_message where
  "arrival = on_message_received 0 ''sensors/t'' ''21'' 0 False"

text \<open>A runtime in which no call outside the fragment throws, and each returns true.\<close>

definition quiet_rx :: "string \<Rightarrow> string \<Rightarrow> bool option" where
  "quiet_rx tp pattern = Some True"

definition paren_row :: topic_row where
  "paren_row = \<lparr> tr_id = 3, tr_connection_id = 1, tr_topic = ''room(1)/#'', tr_qos = 0,
     tr_active = True \<rparr>"

definition reading :: message_data where
  "reading = \<lparr> connection_id = KNum 1, topic = ''sensors/t'', message = ''21'', qos = 0,
     retained = False, timestamp = 50 \<rparr>"


section \<open>Properties of the topic matcher\<close>

subsection \<open>Compiling the pattern\<close>

lemma replace_all_append:
  "replace_all c r (s @ t) = replace_all c r s @ replace_all c r t"
  by (simp add: replace_all_def)

lemma replace_all_Cons:
  "replace_all c r (x # s) = (if x = c then r else [x]) @ replace_all c r s"
  by (simp add: replace_all_def)

lemma replace_all_Nil: "replace_all c r [] = []"
  by (simp add: replace_all_def)

lemma expand_chain:
  "replace_all (CHR ''$'') [CHR 0x5C, CHR ''$'']
     (replace_all (CHR ''#'') ''.*'' (replace_all (CHR ''+'') ''[^/]+'' s))
   = concat (map expand1 s)"
proof (induction s)
  case Nil
  show ?case by (simp add: replace_all_Nil)
next
  case (Cons x s)
  show ?case
    by (simp add: replace_all_Cons replace_all_append replace_all_Nil expand1_def Cons)
qed

lemma radd_Nil: "radd [] r = r"
  by (simp add: radd_def split: sum.splits)

lemma rcons_radd: "rcons x (radd xs r) = radd (x # xs) r"
  by (simp add: rcons_def radd_def split: sum.splits)

lemma radd_radd: "radd xs (radd ys r) = radd (xs @ ys) r"
  by (simp add: radd_def split: sum.splits)

lemma rcons_as_radd: "rcons x r = radd [x] r"
  by (simp add: rcons_def radd_def split: sum.splits)

lemma re_lex_plus: "re_lex (''[^/]+'' @ r) = radd [TAtom NotSlash, TQuant Plus] (re_lex r)"
  by (simp add: rcons_as_radd radd_radd)

lemma re_lex_hash: "re_lex (''.*'' @ r) = radd [TAtom Dot, TQuant Star] (re_lex r)"
  by (simp add: rcons_as_radd radd_radd)

lemma re_lex_dollar:
  "re_lex ([CHR 0x5C, CHR ''$''] @ r) = radd [TAtom (Chr (CHR ''$''))] (re_lex r)"
  by (simp add: rcons_as_radd syntax_chars_def)

lemma re_lex_dot: "re_lex (CHR ''.'' # r) = radd [TAtom Dot] (re_lex r)"
  by (simp add: rcons_as_radd)

lemma re_lex_plain: "plain c \<Longrightarrow> re_lex (c # r) = radd [TAtom (Chr c)] (re_lex r)"
  by (simp add: plain_def syntax_chars_def rcons_as_radd)

lemma re_lex_expand1:
  assumes "simple c"
  shows "re_lex (expand1 c @ r) = radd (tok1 c) (re_lex r)"
proof -
  consider "c = CHR ''+''" | "c = CHR ''#''" | "c = CHR ''$''" | "c = CHR ''.''"
    | "plain c" "c \<noteq> CHR ''+''" "c \<noteq> CHR ''$''" "c \<noteq> CHR ''.''"
    using assms by (auto simp: simple_def)
  then show ?thesis
  proof cases
    case 1
    then show ?thesis using re_lex_plus [of r] by (simp add: expand1_def tok1_def term1_def)
  next
    case 2
    then show ?thesis using re_lex_hash [of r] by (simp add: expand1_def tok1_def term1_def)
  next
    case 3
    then show ?thesis using re_lex_dollar [of r] by (simp add: expand1_def tok1_def term1_def)
  next
    case 4
    then show ?thesis using re_lex_dot [of r] by (simp add: expand1_def tok1_def term1_def)
  next
    case 5
    then show ?thesis
      using re_lex_plain [of c r] by (simp add: expand1_def tok1_def term1_def plain_def)
  qed
qed

lemma re_lex_simple:
  "\<forall>c\<in>set s. simple c \<Longrightarrow>
   re_lex (concat (map expand1 s) @ r) = radd (concat (map tok1 s)) (re_lex r)"
  by (induction s) (simp_all add: radd_Nil re_lex_expand1 radd_radd del: re_lex.simps)

lemma re_terms_None:
  "no_quant_ahead ts \<Longrightarrow> re_terms (TAtom a # ts) = rcons (a, None) (re_terms ts)"
  by (subst re_terms.simps(2))
     (simp add: no_quant_ahead_def split: list.splits token.splits del: re_terms.simps)

lemma re_terms_Some:
  "no_quant_ahead ts \<Longrightarrow>
   re_terms (TAtom a # TQuant q # ts) = rcons (a, Some q) (re_terms ts)"
  by (subst re_terms.simps(2))
     (simp add: no_quant_ahead_def split: list.splits token.splits del: re_terms.simps)

lemma no_quant_ahead_toks:
  "no_quant_ahead ts \<Longrightarrow> no_quant_ahead (concat (map tok1 s) @ ts)"
  by (cases s) (auto simp: no_quant_ahead_def tok1_def split: prod.splits option.splits)

lemma re_terms_simple:
  "no_quant_ahead ts \<Longrightarrow>
   re_terms (concat (map tok1 s) @ ts) = radd (map term1 s) (re_terms ts)"
proof (induction s)
  case Nil
  show ?case by (simp add: radd_Nil)
next
  case (Cons c s)
  have nq: "no_quant_ahead (concat (map tok1 s) @ ts)"
    using Cons.prems by (rule no_quant_ahead_toks)
  obtain a q where t: "term1 c = (a, q)" by (cases "term1 c")
  show ?case
  proof (cases q)
    case None
    with t have "tok1 c = [TAtom a]" by (simp add: tok1_def)
    then show ?thesis
      using re_terms_None [OF nq, of a] Cons.IH [OF Cons.prems] t None
      by (simp add: rcons_radd del: re_terms.simps)
  next
    case (Some q')
    with t have "tok1 c = [TAtom a, TQuant q']" by (simp add: tok1_def)
    then show ?thesis
      using re_terms_Some [OF nq, of a q'] Cons.IH [OF Cons.prems] t Some
      by (simp add: rcons_radd del: re_terms.simps)
  qed
qed

text \<open>The compiled form of an anchored pattern over simple characters.\<close>

lemma topicMatches_simple:
  assumes "\<forall>c\<in>set p. simple c"
  shows "topicMatches t p = Inr (re_match (map term1 p) t)"
proof -
  have lx: "re_lex (CHR ''^'' # concat (map expand1 p) @ ''$'')
            = Inr (TBegin # concat (map tok1 p) @ [TEnd])"
    using re_lex_simple [OF assms, of "''$''"]
    by (simp add: radd_def rcons_def)
  have tm: "re_terms (concat (map tok1 p)) = Inr (map term1 p)"
    using re_terms_simple [of "[]" p] by (simp add: no_quant_ahead_def radd_def del: re_terms.simps(2))
  show ?thesis
    unfolding topicMatches_def Let_def expand_chain regexp_test_def
    by (simp add: lx tm del: re_lex.simps)
qed


lemma re_match_lits:
  "re_match (map (\<lambda>c. (Chr c, None)) p @ ts) s = (\<exists>r. s = p @ r \<and> re_match ts r)"
proof (induction p arbitrary: s)
  case Nil
  show ?case by simp
next
  case (Cons c p)
  show ?case by (cases s) (auto simp: Cons)
qed

lemma re_match_star:
  "re_match ((a, Some Star) # ts) s =
     (\<exists>m r. s = m @ r \<and> (\<forall>c\<in>set m. atom_ok a c) \<and> re_match ts r)"
proof (induction s)
  case Nil
  show ?case by simp
next
  case (Cons x s)
  show ?case (is "?L = ?R")
  proof
    assume ?L
    then consider "re_match ts (x # s)" | "atom_ok a x" "re_match ((a, Some Star) # ts) s"
      by auto
    then show ?R
    proof cases
      case 1
      then have "x # s = [] @ (x # s) \<and> (\<forall>c\<in>set []. atom_ok a c) \<and> re_match ts (x # s)"
        by simp
      then show ?thesis by blast
    next
      case 2
      then obtain m r where "s = m @ r" "\<forall>c\<in>set m. atom_ok a c" "re_match ts r"
        using Cons by blast
      with 2 have "x # s = (x # m) @ r \<and> (\<forall>c\<in>set (x # m). atom_ok a c) \<and> re_match ts r"
        by simp
      then show ?thesis by blast
    qed
  next
    assume ?R
    then obtain m r where mr: "x # s = m @ r" "\<forall>c\<in>set m. atom_ok a c" "re_match ts r"
      by blast
    show ?L
    proof (cases m)
      case Nil
      with mr show ?thesis by simp
    next
      case (Cons y m')
      with mr have "s = m' @ r" "atom_ok a x" "\<forall>c\<in>set m'. atom_ok a c" by auto
      with mr(3) have "re_match ((a, Some Star) # ts) s" using Cons.IH by blast
      with \<open>atom_ok a x\<close> show ?thesis by simp
    qed
  qed
qed


lemma need_slash_Cons:
  "need_slash (t # ts) =
     (if t = (Chr (CHR ''/''), None) \<or> t = (Chr (CHR ''/''), Some Plus) then 1 else 0)
     + need_slash ts"
  by (simp add: need_slash_def)

lemma need_slash_le: "re_match ts s \<Longrightarrow> need_slash ts \<le> count_list s (CHR ''/'')"
proof (induction ts s rule: re_match.induct)
  case (1 s)
  show ?case by (simp add: need_slash_def)
next
  case (2 a ts s)
  then show ?case
    by (cases s) (auto simp: need_slash_Cons)
next
  case (3 a ts s)
  then show ?case
    by (cases s) (auto simp: need_slash_Cons intro: le_SucI)
next
  case (4 a ts s)
  then show ?case
    by (cases s) (auto simp: need_slash_Cons intro: le_SucI)
next
  case (5 a ts s)
  then show ?case
    by (cases s) (auto simp: need_slash_Cons intro: le_SucI)
qed

lemma need_slash_term1: "need_slash (map term1 p) = count_list p (CHR ''/'')"
  by (induction p) (auto simp: need_slash_Cons term1_def need_slash_def)

lemma need_slash_append: "need_slash (xs @ ys) = need_slash xs + need_slash ys"
  by (simp add: need_slash_def)

lemma term1_plain: "plain c \<Longrightarrow> term1 c = (Chr c, None)"
  by (auto simp: plain_def term1_def syntax_chars_def)

lemma map_term1_plain:
  "\<forall>c\<in>set p. plain c \<Longrightarrow> map term1 p = map (\<lambda>c. (Chr c, None)) p"
  by (induction p) (simp_all add: term1_plain)

lemma plain_simple: "plain c \<Longrightarrow> simple c"
  by (simp add: simple_def)

lemma simple_hash: "simple (CHR ''#'')"
  by (simp add: simple_def)

lemma plain_slash: "plain (CHR ''/'')"
  by (simp add: plain_def syntax_chars_def)

lemma simple_slash: "simple (CHR ''/'')"
  by (simp add: simple_def plain_slash)

lemma term1_hash: "term1 (CHR ''#'') = (Dot, Some Star)"
  by (simp add: term1_def)


subsection \<open>Patterns without wildcards\<close>

text \<open>A pattern of plain characters matches exactly itself.\<close>

theorem topicMatches_plain:
  assumes "\<forall>c\<in>set p. plain c"
  shows "topicMatches t p = Inr (t = p)"
proof -
  have "\<forall>c\<in>set p. simple c" using assms by (simp add: plain_simple)
  then have "topicMatches t p = Inr (re_match (map term1 p) t)"
    by (rule topicMatches_simple)
  also have "re_match (map term1 p) t = (t = p)"
    using re_match_lits [of p "[]" t] by (simp add: map_term1_plain [OF assms])
  finally show ?thesis .
qed

theorem topicMatches_plain_witness:
  "topicMatches ''a/b'' ''a/b'' = Inr True \<and> topicMatches ''a/c'' ''a/b'' = Inr False"
  using topicMatches_plain [of "''a/b''" "''a/b''"] topicMatches_plain [of "''a/b''" "''a/c''"]
  by (simp add: plain_def syntax_chars_def)

text \<open>
  Claim C4: for every topic \<open>T\<close> and every pattern \<open>P\<close> that holds neither \<^verbatim>\<open>+\<close> nor
  \<^verbatim>\<open>#\<close>, the matcher returns true exactly when \<open>T\<close> and \<open>P\<close> are equal. The code
  escapes \<^verbatim>\<open>$\<close> and no other character that the regular expression reads as syntax:
  the pattern \<^verbatim>\<open>a.b\<close> has no wildcard, differs from the topic \<^verbatim>\<open>axb\<close>, and matches
  it, since its dot stands for any character.
\<close>

theorem topicMatches_dot_matches_any:
  "CHR ''+'' \<notin> set ''a.b'' \<and> CHR ''#'' \<notin> set ''a.b'' \<and> ''axb'' \<noteq> ''a.b'' \<and>
   topicMatches ''axb'' ''a.b'' = Inr True"
  by (simp add: topicMatches_def replace_all_def regexp_test_def rcons_def syntax_chars_def)

subsection \<open>The multi-level wildcard\<close>

text \<open>
  Claim C5, as the specification states it: a pattern with the segment \<^verbatim>\<open>#\<close> in a
  position that is not the last matches no topic. It fails: every \<^verbatim>\<open>#\<close> becomes
  \<^verbatim>\<open>.*\<close>, wherever it stands.
\<close>

theorem hash_inside_counterexample: "topicMatches ''a/x/b'' ''a/#/b'' = Inr True"
  by (simp add: topicMatches_def replace_all_def regexp_test_def rcons_def syntax_chars_def)

text \<open>
  Claim C5, amended: a \<^verbatim>\<open>#\<close> that is followed by further segments is a wildcard like
  any other. With plain text \<open>pre\<close> before it (empty, or ending in the separator, when the
  \<^verbatim>\<open>#\<close> is a whole segment) and plain text \<open>q\<close> after its separator, the pattern
  matches exactly the topics that consist of \<open>pre\<close>, any text free of line terminators
  (separators allowed), the separator and \<open>q\<close>.
\<close>

theorem hash_inside_is_wildcard:
  assumes "\<forall>c\<in>set pre. plain c" and "\<forall>c\<in>set q. plain c"
  shows "topicMatches t (pre @ ''#/'' @ q) =
         Inr (\<exists>m. t = pre @ m @ ''/'' @ q \<and> (\<forall>c\<in>set m. \<not> line_terminator c))"
proof -
  have sp: "\<forall>c\<in>set (pre @ ''#/'' @ q). simple c"
    using assms by (simp add: simple_hash simple_slash plain_simple ball_Un)
  have plq: "\<forall>c\<in>set (CHR ''/'' # q). plain c"
    using assms(2) by (simp add: plain_slash)
  have tm: "map term1 (pre @ ''#/'' @ q) =
            map (\<lambda>c. (Chr c, None)) pre @ (Dot, Some Star) # map (\<lambda>c. (Chr c, None)) (CHR ''/'' # q)"
    using map_term1_plain [OF assms(1)] map_term1_plain [OF plq]
    by (simp add: term1_hash)
  have tail: "\<And>r. re_match (map (\<lambda>c. (Chr c, None)) (CHR ''/'' # q)) r = (r = CHR ''/'' # q)"
    using re_match_lits [of "CHR ''/'' # q" "[]"] by simp
  have dot: "\<And>c. atom_ok Dot c = (\<not> line_terminator c)"
    by (simp add: line_terminator_def)
  have "re_match (map term1 (pre @ ''#/'' @ q)) t =
        (\<exists>r. t = pre @ r \<and> (\<exists>m r'. r = m @ r' \<and> (\<forall>c\<in>set m. atom_ok Dot c) \<and> r' = CHR ''/'' # q))"
    unfolding tm re_match_lits re_match_star tail ..
  also have "\<dots> = (\<exists>m. t = pre @ m @ ''/'' @ q \<and> (\<forall>c\<in>set m. \<not> line_terminator c))"
    unfolding dot by (simp only: append_Cons append_Nil) blast
  finally show ?thesis
    using topicMatches_simple [OF sp, of t] by simp
qed

theorem hash_inside_is_wildcard_witness:
  "topicMatches ''sensors/a/b/temp'' ''sensors/#/temp'' = Inr True"
proof -
  have p: "\<forall>c\<in>set ''sensors/''. plain c" "\<forall>c\<in>set ''temp''. plain c"
    by (simp_all add: plain_def syntax_chars_def)
  have "''sensors/a/b/temp'' = ''sensors/'' @ ''a/b'' @ ''/'' @ ''temp'' \<and>
        (\<forall>c\<in>set ''a/b''. \<not> line_terminator c)"
    by (simp add: line_terminator_def)
  then have "\<exists>m. ''sensors/a/b/temp'' = ''sensors/'' @ m @ ''/'' @ ''temp'' \<and>
        (\<forall>c\<in>set m. \<not> line_terminator c)"
    by (rule exI)
  then show ?thesis
    using hash_inside_is_wildcard [OF p, of "''sensors/a/b/temp''"] by simp
qed

text \<open>The parent topic is not matched by its own multi-level pattern, for every topic
  of simple characters (the empty one included): the pattern asks for one separator more
  than the topic holds.\<close>

theorem parent_not_matched:
  assumes "\<forall>c\<in>set t. simple c"
  shows "topicMatches t (t @ ''/#'') = Inr False"
proof -
  have sp: "\<forall>c\<in>set (t @ ''/#''). simple c"
    using assms by (simp add: simple_hash simple_slash)
  have "need_slash (map term1 ''/#'') = 1"
    by (simp add: need_slash_def term1_def)
  then have "need_slash (map term1 (t @ ''/#'')) = Suc (count_list t (CHR ''/''))"
    using need_slash_append [of "map term1 t" "map term1 ''/#''"] need_slash_term1 [of t]
    by simp
  then have "\<not> re_match (map term1 (t @ ''/#'')) t"
    using need_slash_le [of "map term1 (t @ ''/#'')" t] by auto
  then show ?thesis
    using topicMatches_simple [OF sp, of t] by simp
qed

theorem parent_not_matched_witness: "topicMatches ''$SYS/v1.0'' ''$SYS/v1.0/#'' = Inr False"
  using parent_not_matched [of "''$SYS/v1.0''"]
  by (simp add: simple_def plain_def syntax_chars_def)

text \<open>
  Claim C9: for every non-empty topic \<open>T\<close>, the matcher returns false on \<open>T\<close> and the
  pattern \<open>T\<close> followed by \<^verbatim>\<open>/#\<close>. The code breaks it for a topic that holds a
  character read as a quantifier: in the pattern made from the topic \<^verbatim>\<open>/*\<close> the
  star makes the first separator optional, and the topic matches.
\<close>

theorem parent_matched_with_quantifier:
  "''/*'' \<noteq> [] \<and> topicMatches ''/*'' (''/*'' @ ''/#'') = Inr True"
  by (simp add: topicMatches_def replace_all_def regexp_test_def rcons_def syntax_chars_def)

section \<open>Properties of the monitor\<close>

lemmas ex_defs = both_bound_def one_bound_def two_viewers_def monitor0_def viewer_def broker1_def
  idle_transport_def fresh_socket_def connectMQTT_def on_connect_def connect_args_def
  base_options_def with_credentials_def with_tls_def truthy_string_def starts_with_def
  broadcast_def subscribeToTopics_def map_entry_def set_add_def Let_def

lemmas tm_defs = topicMatches_def replace_all_def regexp_test_def rcons_def syntax_chars_def

subsection \<open>Closing a viewer session\<close>

lemma disconnectMQTT_clients:
  "mqttClients (disconnectMQTT c s) = (mqttClients s)(c := None)"
  by (auto simp: disconnectMQTT_def split: option.splits)

lemma disconnectMQTT_frame:
  "wsClients (disconnectMQTT c s) = wsClients s"
  "sockets (disconnectMQTT c s) = sockets s"
  "wss_clients (disconnectMQTT c s) = wss_clients s"
  "db_topics (disconnectMQTT c s) = db_topics s"
  "broadcasts (disconnectMQTT c s) = broadcasts s"
  by (simp_all add: disconnectMQTT_def split: option.splits)

lemma disconnectMQTT_end_calls:
  "end_calls (transports (disconnectMQTT c s) h) =
     end_calls (transports s h) + (if mqttClients s c = Some h then 1 else 0)"
  by (simp add: disconnectMQTT_def split: option.splits)

lemma disconnect_all_clients:
  "mqttClients (disconnect_all s cs) c = (if c \<in> set cs then None else mqttClients s c)"
  by (induction cs arbitrary: s) (simp_all add: disconnectMQTT_clients)

lemma disconnect_all_frame:
  "wsClients (disconnect_all s cs) = wsClients s"
  "sockets (disconnect_all s cs) = sockets s"
  "db_topics (disconnect_all s cs) = db_topics s"
  "broadcasts (disconnect_all s cs) = broadcasts s"
  by (induction cs arbitrary: s) (simp_all add: disconnectMQTT_frame)

lemma card_bound_Cons:
  "card {c' \<in> set (c # cs). m c' = Some h} =
     (if m c = Some h then 1 else 0) + card {c' \<in> set cs. (m(c := None)) c' = Some h}"
proof -
  have fin: "finite {c' \<in> set cs. (m(c := None)) c' = Some h}" by simp
  have notin: "c \<notin> {c' \<in> set cs. (m(c := None)) c' = Some h}" by simp
  show ?thesis
  proof (cases "m c = Some h")
    case True
    then have "{c' \<in> set (c # cs). m c' = Some h} =
               insert c {c' \<in> set cs. (m(c := None)) c' = Some h}"
      by auto
    then show ?thesis using True fin notin by simp
  next
    case False
    then have "{c' \<in> set (c # cs). m c' = Some h} =
               {c' \<in> set cs. (m(c := None)) c' = Some h}"
      by auto
    then show ?thesis using False by simp
  qed
qed

lemma disconnect_all_end_calls:
  "end_calls (transports (disconnect_all s cs) h) =
     end_calls (transports s h) + card {c \<in> set cs. mqttClients s c = Some h}"
proof (induction cs arbitrary: s)
  case Nil
  show ?case by simp
next
  case (Cons c cs)
  have "end_calls (transports (disconnect_all s (c # cs)) h) =
        end_calls (transports (disconnectMQTT c s) h) +
          card {c' \<in> set cs. mqttClients (disconnectMQTT c s) c' = Some h}"
    using Cons.IH [of "disconnectMQTT c s"] by simp
  also have "\<dots> = end_calls (transports s h) + (if mqttClients s c = Some h then 1 else 0) +
          card {c' \<in> set cs. ((mqttClients s)(c := None)) c' = Some h}"
    by (simp only: disconnectMQTT_end_calls disconnectMQTT_clients)
  also have "\<dots> = end_calls (transports s h) + card {c' \<in> set (c # cs). mqttClients s c' = Some h}"
    by (simp only: card_bound_Cons [of c cs "mqttClients s" h] add.assoc)
  finally show ?case .
qed

lemma map_of_filter_neq:
  "map_of (filter (\<lambda>(k, v). k \<noteq> w) xs) k = (if k = w then None else map_of xs k)"
  by (induction xs) auto

lemma hwd_map_of:
  "map_of (wsClients (handleWebSocketDisconnect w s)) k =
     (if k = w then None else map_of (wsClients s) k)"
  by (simp add: handleWebSocketDisconnect_def Let_def map_of_filter_neq disconnect_all_frame
        split: option.splits)

lemma hwd_sockets: "sockets (handleWebSocketDisconnect w s) = sockets s"
  by (simp add: handleWebSocketDisconnect_def Let_def disconnect_all_frame split: option.splits)

lemma hwd_clients:
  "mqttClients (handleWebSocketDisconnect w s) c =
     (case map_of (wsClients s) w of
        None \<Rightarrow> mqttClients s c
      | Some ci \<Rightarrow> if c \<in> set (mqttConnections ci) then None else mqttClients s c)"
  by (simp add: handleWebSocketDisconnect_def Let_def disconnect_all_clients split: option.splits)

lemma hwd_end_calls:
  "map_of (wsClients s) w = Some ci \<Longrightarrow>
   end_calls (transports (handleWebSocketDisconnect w s) h) =
     end_calls (transports s h) + card {c \<in> set (mqttConnections ci). mqttClients s c = Some h}"
  by (simp add: handleWebSocketDisconnect_def Let_def disconnect_all_end_calls)

text \<open>
  Claim C3, as the specification states it: when a viewer session is closed, a broker
  session it was bound to is disconnected only if no other registered viewer remains
  bound to it. It fails: after both viewers have connected to broker 1, closing the first
  viewer ends the client of broker 1 and deletes its entry, while the second viewer is
  still registered and bound to it.
\<close>

theorem close_viewer_ignores_other_binding:
  "map (\<lambda>(k, v). (k, mqttConnections v)) (wsClients both_bound)
     = [(''ws_a'', [KNum 1]), (''ws_b'', [KNum 1])] \<and>
   mqttClients both_bound (KNum 1) = Some 1 \<and>
   map (\<lambda>(k, v). (k, mqttConnections v)) (wsClients (handleWebSocketDisconnect ''ws_a'' both_bound))
     = [(''ws_b'', [KNum 1])] \<and>
   mqttClients (handleWebSocketDisconnect ''ws_a'' both_bound) (KNum 1) = None \<and>
   end_calls (transports (handleWebSocketDisconnect ''ws_a'' both_bound) 1) = 1"
  by (simp add: ex_defs handleWebSocketDisconnect_def disconnectMQTT_def)

text \<open>
  Claim C3, amended: when a viewer session is closed, every broker session in its set is
  disconnected, whether or not another viewer is bound to it; no count of the remaining
  viewers is taken. The viewer leaves the registry; the entry of every connection id in
  its set leaves the session table and every other entry stays; and each client receives
  as many calls of \<^verbatim>\<open>end()\<close> as there are ids in the set under which it was
  registered (exactly one for a client registered under one id of the set, none for a
  client registered under no id of the set).
\<close>

theorem close_viewer_disconnects_all:
  assumes "map_of (wsClients s) w = Some ci"
  shows "map_of (wsClients (handleWebSocketDisconnect w s)) w = None \<and>
     (\<forall>c. mqttClients (handleWebSocketDisconnect w s) c =
            (if c \<in> set (mqttConnections ci) then None else mqttClients s c)) \<and>
     (\<forall>h. end_calls (transports (handleWebSocketDisconnect w s) h) =
            end_calls (transports s h) +
            card {c \<in> set (mqttConnections ci). mqttClients s c = Some h})"
  using assms by (simp add: hwd_map_of hwd_clients hwd_end_calls)

theorem close_viewer_disconnects_all_witness:
  "map_of (wsClients one_bound) ''ws_a'' = Some ((viewer 0)\<lparr>mqttConnections := [KNum 1]\<rparr>) \<and>
   mqttClients one_bound (KNum 1) = Some 0 \<and>
   map_of (wsClients (handleWebSocketDisconnect ''ws_a'' one_bound)) ''ws_a'' = None \<and>
   mqttClients (handleWebSocketDisconnect ''ws_a'' one_bound) (KNum 1) = None \<and>
   end_calls (transports (handleWebSocketDisconnect ''ws_a'' one_bound) 0)
     = Suc (end_calls (transports one_bound 0))"
proof -
  have a: "map_of (wsClients one_bound) ''ws_a'' = Some ((viewer 0)\<lparr>mqttConnections := [KNum 1]\<rparr>)"
    and m: "mqttClients one_bound (KNum 1) = Some 0"
    by (simp_all add: ex_defs)
  have "{c \<in> set [KNum 1]. mqttClients one_bound c = Some 0} = {KNum 1}"
    using m by auto
  then have "card {c \<in> set [KNum 1]. mqttClients one_bound c = Some 0} = 1"
    by simp
  then show ?thesis
    using close_viewer_disconnects_all [OF a] a m by (simp add: viewer_def)
qed

subsection \<open>The heartbeat\<close>

lemma visit_sockets:
  "readyState (sockets (heartbeat_visit now s w) i) = readyState (sockets s i)"
  "send_throws (sockets (heartbeat_visit now s w) i) = send_throws (sockets s i)"
  by (simp_all add: heartbeat_visit_def hwd_sockets split: option.splits)

lemma visit_alive: "viewer_alive (heartbeat_visit now s w) ci = viewer_alive s ci"
  by (simp add: viewer_alive_def visit_sockets)

lemma visit_map_of:
  "map_of (wsClients (heartbeat_visit now s w)) k =
     (if k = w \<and> (\<exists>ci. map_of (wsClients s) w = Some ci \<and> \<not> viewer_alive s ci) then None
      else map_of (wsClients s) k)"
  by (auto simp: heartbeat_visit_def hwd_map_of viewer_alive_def split: option.splits)

lemma visit_clients_mono:
  "mqttClients s c = None \<Longrightarrow> mqttClients (heartbeat_visit now s w) c = None"
  by (simp add: heartbeat_visit_def hwd_clients split: option.splits)

lemma visit_clients_dead:
  "map_of (wsClients s) w = Some ci \<Longrightarrow> \<not> viewer_alive s ci \<Longrightarrow>
   c \<in> set (mqttConnections ci) \<Longrightarrow> mqttClients (heartbeat_visit now s w) c = None"
  by (auto simp: heartbeat_visit_def hwd_clients viewer_alive_def split: option.splits)

lemma fold_clients_mono:
  "mqttClients s c = None \<Longrightarrow> mqttClients (foldl (heartbeat_visit now) s ks) c = None"
  by (induction ks arbitrary: s) (simp_all add: visit_clients_mono)

lemma fold_map_of:
  "map_of (wsClients (foldl (heartbeat_visit now) s ks)) k =
     (if k \<in> set ks \<and> (\<exists>ci. map_of (wsClients s) k = Some ci \<and> \<not> viewer_alive s ci) then None
      else map_of (wsClients s) k)"
proof (induction ks arbitrary: s)
  case Nil
  show ?case by simp
next
  case (Cons w ks)
  show ?case
    by (simp add: Cons.IH [of "heartbeat_visit now s w"] visit_map_of visit_alive) auto
qed

lemma fold_clients_dead:
  "k \<in> set ks \<Longrightarrow> map_of (wsClients s) k = Some ci \<Longrightarrow> \<not> viewer_alive s ci \<Longrightarrow>
   c \<in> set (mqttConnections ci) \<Longrightarrow> mqttClients (foldl (heartbeat_visit now) s ks) c = None"
proof (induction ks arbitrary: s)
  case Nil
  then show ?case by simp
next
  case (Cons w ks)
  show ?case
  proof (cases "k = w")
    case True
    then have "mqttClients (heartbeat_visit now s w) c = None"
      using Cons.prems by (simp add: visit_clients_dead)
    then show ?thesis by (simp add: fold_clients_mono)
  next
    case False
    then have "k \<in> set ks" using Cons.prems by simp
    moreover have "map_of (wsClients (heartbeat_visit now s w)) k = Some ci"
      using False Cons.prems by (simp add: visit_map_of)
    moreover have "\<not> viewer_alive (heartbeat_visit now s w) ci"
      using Cons.prems by (simp add: visit_alive)
    ultimately have "mqttClients (foldl (heartbeat_visit now) (heartbeat_visit now s w) ks) c = None"
      using Cons.prems(4) by (rule Cons.IH)
    then show ?thesis by simp
  qed
qed

lemma map_of_in_keys: "map_of xs k = Some v \<Longrightarrow> k \<in> set (map fst xs)"
  by (metis map_of_eq_None_iff option.distinct(1) set_map)

text \<open>
  Claim C1, as the specification states it: a viewer whose last recorded pong predates
  the previous tick is removed on the next tick, so that a viewer that misses two
  acknowledgements in a row is no longer registered. It fails: the tick never reads the
  time of the last pong. A viewer that was sent two probes and answered none, with an
  open channel, is still registered after the second tick.
\<close>

theorem heartbeat_keeps_silent_viewer:
  "map_of (wsClients (heartbeat 60000 (heartbeat 30000 two_viewers))) ''ws_a'' = Some (viewer 0) \<and>
   lastPong (viewer 0) = 0 \<and>
   sent (sockets (heartbeat 60000 (heartbeat 30000 two_viewers)) 0) = [PingEvt 30000, PingEvt 60000]"
  by (simp add: heartbeat_def heartbeat_visit_def two_viewers_def monitor0_def viewer_def
        fresh_socket_def)

text \<open>
  Claim C1, amended: on every heartbeat tick, each registered viewer whose channel is not
  open, or whose probe cannot be sent, is treated as dead: it is removed from the
  registry and every broker session in its set is removed from the session table. Every
  other registered viewer stays registered with its record unchanged, whatever the time
  of its last pong.
\<close>

theorem heartbeat_removes_dead_channels:
  "map_of (wsClients (heartbeat now s)) w =
     (case map_of (wsClients s) w of
        None \<Rightarrow> None
      | Some ci \<Rightarrow> if viewer_alive s ci then Some ci else None) \<and>
   (\<forall>ci c. map_of (wsClients s) w = Some ci \<and> \<not> viewer_alive s ci \<and>
       c \<in> set (mqttConnections ci) \<longrightarrow> mqttClients (heartbeat now s) c = None)"
proof
  show "map_of (wsClients (heartbeat now s)) w =
     (case map_of (wsClients s) w of
        None \<Rightarrow> None
      | Some ci \<Rightarrow> if viewer_alive s ci then Some ci else None)"
    unfolding heartbeat_def fold_map_of
    by (auto split: option.splits dest: map_of_in_keys)
next
  show "\<forall>ci c. map_of (wsClients s) w = Some ci \<and> \<not> viewer_alive s ci \<and>
       c \<in> set (mqttConnections ci) \<longrightarrow> mqttClients (heartbeat now s) c = None"
    unfolding heartbeat_def
    using fold_clients_dead [of w "map fst (wsClients s)" s _ _ now] map_of_in_keys [of "wsClients s" w]
    by blast
qed

theorem heartbeat_removes_dead_channels_witness:
  "map_of (wsClients a_lost) ''ws_a'' = Some ((viewer 0)\<lparr>mqttConnections := [KNum 1]\<rparr>) \<and>
   readyState (sockets a_lost 0) = CLOSED \<and>
   mqttClients a_lost (KNum 1) = Some 1 \<and>
   map_of (wsClients (heartbeat 30000 a_lost)) ''ws_a'' = None \<and>
   map_of (wsClients (heartbeat 30000 a_lost)) ''ws_b'' = Some ((viewer 1)\<lparr>mqttConnections := [KNum 1]\<rparr>) \<and>
   mqttClients (heartbeat 30000 a_lost) (KNum 1) = None"
proof -
  have a: "map_of (wsClients a_lost) ''ws_a'' = Some ((viewer 0)\<lparr>mqttConnections := [KNum 1]\<rparr>)"
    and b: "map_of (wsClients a_lost) ''ws_b'' = Some ((viewer 1)\<lparr>mqttConnections := [KNum 1]\<rparr>)"
    and c: "readyState (sockets a_lost 0) = CLOSED"
    and d: "viewer_alive a_lost ((viewer 1)\<lparr>mqttConnections := [KNum 1]\<rparr>)"
    and e: "mqttClients a_lost (KNum 1) = Some 1"
    by (simp_all add: a_lost_def ex_defs viewer_alive_def)
  have dead: "\<not> viewer_alive a_lost ((viewer 0)\<lparr>mqttConnections := [KNum 1]\<rparr>)"
    using c by (simp add: viewer_alive_def viewer_def)
  have "map_of (wsClients (heartbeat 30000 a_lost)) ''ws_a'' = None"
    using heartbeat_removes_dead_channels [of 30000 a_lost "''ws_a''"] a dead by simp
  moreover have "map_of (wsClients (heartbeat 30000 a_lost)) ''ws_b'' =
      Some ((viewer 1)\<lparr>mqttConnections := [KNum 1]\<rparr>)"
    using heartbeat_removes_dead_channels [of 30000 a_lost "''ws_b''"] b d by simp
  moreover have "mqttClients (heartbeat 30000 a_lost) (KNum 1) = None"
    using heartbeat_removes_dead_channels [of 30000 a_lost "''ws_a''"] a dead
    by (simp add: viewer_def)
  ultimately show ?thesis using a c e by simp
qed

subsection \<open>Fan-out\<close>

lemma broadcast_frame:
  "mqttClients (snd (broadcast ev s)) = mqttClients s"
  "wsClients (snd (broadcast ev s)) = wsClients s"
  "transports (snd (broadcast ev s)) = transports s"
  "n_transports (snd (broadcast ev s)) = n_transports s"
  "db_topics (snd (broadcast ev s)) = db_topics s"
  "broadcasts (snd (broadcast ev s)) = broadcasts s @ [ev]"
  by (simp_all add: broadcast_def split: prod.splits)

text \<open>
  Claim C7: a failure of the send to one channel affects only that channel, and every
  other open channel still receives the message. The loop of \<^verbatim>\<open>broadcast\<close> has no
  handler around \<^verbatim>\<open>send\<close> (the loop of the heartbeat has one): with three open
  channels of which the second throws, the first has received the message, the third has
  not, and the exception leaves \<^verbatim>\<open>broadcast\<close>.
\<close>

theorem broadcast_aborts_on_throw:
  "fst (broadcast (StatusConnected (KNum 1)) second_throws) \<and>
   map (\<lambda>i. sent (sockets (snd (broadcast (StatusConnected (KNum 1)) second_throws)) i)) [0, 1, 2]
     = [[StatusConnected (KNum 1)], [], []] \<and>
   map (\<lambda>i. readyState (sockets second_throws i)) [0, 1, 2] = [OPEN, OPEN, OPEN]"
  by (simp add: second_throws_def monitor0_def fresh_socket_def broadcast_def)

lemma broadcast_loop_no_throw:
  assumes "\<forall>i\<in>set js. readyState (sk i) = OPEN \<longrightarrow> \<not> send_throws (sk i)" and "distinct js"
  shows "broadcast_loop ev js sk =
           (False, \<lambda>i. if i \<in> set js \<and> readyState (sk i) = OPEN
                        then (sk i)\<lparr>sent := sent (sk i) @ [ev]\<rparr> else sk i)"
  using assms
proof (induction js arbitrary: sk)
  case Nil
  show ?case by simp
next
  case (Cons j js)
  show ?case
  proof (cases "readyState (sk j) = OPEN")
    case True
    let ?sk = "sk(j := (sk j)\<lparr>sent := sent (sk j) @ [ev]\<rparr>)"
    have "\<forall>i\<in>set js. readyState (?sk i) = OPEN \<longrightarrow> \<not> send_throws (?sk i)"
      using Cons.prems by auto
    moreover have "distinct js" using Cons.prems by simp
    ultimately have "broadcast_loop ev js ?sk =
           (False, \<lambda>i. if i \<in> set js \<and> readyState (?sk i) = OPEN
                        then (?sk i)\<lparr>sent := sent (?sk i) @ [ev]\<rparr> else ?sk i)"
      by (rule Cons.IH)
    then show ?thesis using True Cons.prems by (auto simp: fun_eq_iff)
  next
    case False
    have "broadcast_loop ev js sk =
           (False, \<lambda>i. if i \<in> set js \<and> readyState (sk i) = OPEN
                        then (sk i)\<lparr>sent := sent (sk i) @ [ev]\<rparr> else sk i)"
      using Cons.prems by (intro Cons.IH) auto
    then show ?thesis using False by (auto simp: fun_eq_iff)
  qed
qed

text \<open>When no send throws, every open channel of the server receives the message once,
  and no other channel receives it.\<close>

theorem broadcast_reaches_every_open_channel:
  assumes "\<forall>i\<in>set (wss_clients s). readyState (sockets s i) = OPEN \<longrightarrow> \<not> send_throws (sockets s i)"
    and "distinct (wss_clients s)"
  shows "\<not> fst (broadcast ev s) \<and>
     (\<forall>i. sent (sockets (snd (broadcast ev s)) i) =
        (if i \<in> set (wss_clients s) \<and> readyState (sockets s i) = OPEN
         then sent (sockets s i) @ [ev] else sent (sockets s i)))"
  using broadcast_loop_no_throw [OF assms, of ev] by (simp add: broadcast_def)

theorem broadcast_reaches_every_open_channel_witness:
  "\<not> fst (broadcast (PingEvt 1) two_viewers) \<and>
   sent (sockets (snd (broadcast (PingEvt 1) two_viewers)) 0) = [PingEvt 1] \<and>
   sent (sockets (snd (broadcast (PingEvt 1) two_viewers)) 1) = [PingEvt 1] \<and>
   sent (sockets (snd (broadcast (PingEvt 1) two_viewers)) 2) = []"
proof -
  have "\<forall>i\<in>set (wss_clients two_viewers).
          readyState (sockets two_viewers i) = OPEN \<longrightarrow> \<not> send_throws (sockets two_viewers i)"
    and "distinct (wss_clients two_viewers)"
    by (simp_all add: two_viewers_def monitor0_def fresh_socket_def)
  from broadcast_reaches_every_open_channel [OF this, of "PingEvt 1"] show ?thesis
    by (simp add: two_viewers_def monitor0_def fresh_socket_def)
qed

subsection \<open>Connecting to a broker\<close>

lemma connectMQTT_frame:
  "mqttClients (connectMQTT c w now s) = mqttClients s"
  "wsClients (connectMQTT c w now s) = wsClients s"
  "n_transports (connectMQTT c w now s) = Suc (n_transports s)"
  "t_conn (transports (connectMQTT c w now s) (n_transports s)) = c_id c"
  "h \<noteq> n_transports s \<Longrightarrow> transports (connectMQTT c w now s) h = transports s h"
  by (simp_all add: connectMQTT_def split: prod.splits)

lemma subscribeToTopics_clients:
  "mqttClients (subscribeToTopics cid dbf s) = mqttClients s"
  by (simp add: subscribeToTopics_def split: option.splits)

lemma broadcast_result:
  "(case broadcast ev s of (True, s3) \<Rightarrow> f s3 | (False, s3) \<Rightarrow> g s3) =
     (if fst (broadcast ev s) then f (snd (broadcast ev s)) else g (snd (broadcast ev s)))"
  by (cases "broadcast ev s") (simp split: bool.splits)

lemma on_connect_clients:
  "mqttClients (snd (on_connect h dbf s)) = (mqttClients s)(t_conn (transports s h) \<mapsto> h)"
  by (simp add: on_connect_def Let_def broadcast_result broadcast_frame subscribeToTopics_clients)

lemma transports_of_connect:
  "transports_of (c_id c) (connectMQTT c w now s) = transports_of (c_id c) s @ [n_transports s]"
proof -
  have "filter (\<lambda>h. t_conn (transports (connectMQTT c w now s) h) = c_id c) [0..<n_transports s]
        = filter (\<lambda>h. t_conn (transports s h) = c_id c) [0..<n_transports s]"
    by (rule filter_cong) (simp_all add: connectMQTT_frame)
  then show ?thesis
    by (simp add: transports_of_def connectMQTT_frame)
qed

text \<open>
  Claim C2, as the specification states it: when the connection id already has a live
  session, connecting again returns that session and opens no second transport. It fails:
  with the client 0 registered for broker 1, a second call opens the client 1 for the
  same id; once it has connected, the table holds the client 1, and the client 0 was
  never ended.
\<close>

theorem connect_twice_counterexample:
  "mqttClients one_bound (KNum 1) = Some 0 \<and>
   transports_of (KNum 1) one_bound = [0] \<and>
   transports_of (KNum 1) (connectMQTT broker1 (Some ''ws_b'') 20 one_bound) = [0, 1] \<and>
   mqttClients both_bound (KNum 1) = Some 1 \<and>
   end_calls (transports both_bound 0) = 0"
  by (simp add: ex_defs transports_of_def)

text \<open>
  Claim C2, amended: \<^verbatim>\<open>connectMQTT\<close> is not idempotent. Every call opens a new client
  for the connection id of the descriptor, whether or not the session table holds one for
  that id; the call leaves the session table and the existing clients as they are; and
  when the new client reports that it has connected, the table's entry of the connection
  id is the new client.
\<close>

theorem connect_opens_new_transport:
  "transports_of (c_id c) (connectMQTT c w now s) = transports_of (c_id c) s @ [n_transports s] \<and>
   mqttClients (connectMQTT c w now s) = mqttClients s \<and>
   transports (connectMQTT c w now s) =
     (transports s)(n_transports s := transports (connectMQTT c w now s) (n_transports s)) \<and>
   mqttClients (snd (on_connect (n_transports s) dbf (connectMQTT c w now s))) (c_id c)
     = Some (n_transports s)"
  by (simp add: transports_of_connect connectMQTT_frame on_connect_clients fun_eq_iff)

subsection \<open>What a broadcast delivers\<close>

lemma blocked_sent_upd: "blocked (sk(i := (sk i)\<lparr>sent := x\<rparr>)) = blocked sk"
  by (auto simp: blocked_def fun_eq_iff)

lemma broadcast_loop_thrown: "fst (broadcast_loop ev js sk) = (\<exists>j\<in>set js. blocked sk j)"
proof (induction js arbitrary: sk)
  case Nil
  show ?case by simp
next
  case (Cons j js)
  show ?case
  proof (cases "blocked sk j")
    case True
    then show ?thesis by (simp add: blocked_def)
  next
    case False
    show ?thesis
    proof (cases "readyState (sk j) = OPEN")
      case True
      let ?sk = "sk(j := (sk j)\<lparr>sent := sent (sk j) @ [ev]\<rparr>)"
      have "fst (broadcast_loop ev (j # js) sk) = fst (broadcast_loop ev js ?sk)"
        using True False by (simp add: blocked_def)
      also have "\<dots> = (\<exists>j\<in>set js. blocked sk j)"
        unfolding Cons.IH [of ?sk] blocked_sent_upd ..
      finally show ?thesis using False by simp
    next
      case closed: False
      then show ?thesis using False Cons.IH [of sk] by simp
    qed
  qed
qed

lemma broadcast_loop_sent:
  "sent (snd (broadcast_loop ev js sk) i) =
     sent (sk i) @
     replicate (if readyState (sk i) = OPEN
                then count_list (takeWhile (\<lambda>j. \<not> blocked sk j) js) i else 0) ev"
proof (induction js arbitrary: sk)
  case Nil
  show ?case by simp
next
  case (Cons j js)
  show ?case
  proof (cases "readyState (sk j) = OPEN")
    case isopen: True
    show ?thesis
    proof (cases "send_throws (sk j)")
      case True
      with isopen have "blocked sk j" by (simp add: blocked_def)
      then show ?thesis using isopen True by simp
    next
      case False
      let ?sk = "sk(j := (sk j)\<lparr>sent := sent (sk j) @ [ev]\<rparr>)"
      have nb: "\<not> blocked sk j" using False by (simp add: blocked_def)
      have rs: "readyState (?sk i) = readyState (sk i)" by simp
      have "sent (snd (broadcast_loop ev (j # js) sk) i) = sent (snd (broadcast_loop ev js ?sk) i)"
        using isopen False by simp
      also have "\<dots> = sent (?sk i) @
          replicate (if readyState (sk i) = OPEN
                     then count_list (takeWhile (\<lambda>j. \<not> blocked sk j) js) i else 0) ev"
        unfolding Cons.IH [of ?sk] blocked_sent_upd rs ..
      also have "\<dots> = sent (sk i) @
          replicate (if readyState (sk i) = OPEN
                     then count_list (takeWhile (\<lambda>j. \<not> blocked sk j) (j # js)) i else 0) ev"
        using nb isopen by (simp add: replicate_app_Cons_same)
      finally show ?thesis .
    qed
  next
    case False
    then have nb: "\<not> blocked sk j" by (simp add: blocked_def)
    show ?thesis using False nb Cons.IH [of sk] by auto
  qed
qed

lemma broadcast_unfold:
  "broadcast ev s =
     (fst (broadcast_loop ev (wss_clients s) (sockets s)),
      s\<lparr>sockets := snd (broadcast_loop ev (wss_clients s) (sockets s)),
        broadcasts := broadcasts s @ [ev]\<rparr>)"
  by (simp add: broadcast_def split: prod.splits)

lemma broadcast_sent:
  "sent (sockets (snd (broadcast ev s)) i) = sent (sockets s i) @ replicate (deliveries s i) ev"
  by (simp add: broadcast_unfold broadcast_loop_sent deliveries_def)

lemma broadcast_thrown:
  "fst (broadcast ev s) = (\<exists>j\<in>set (wss_clients s). blocked (sockets s) j)"
  by (simp add: broadcast_unfold broadcast_loop_thrown)

lemma deliveries_cong:
  "sockets s' = sockets s \<Longrightarrow> wss_clients s' = wss_clients s \<Longrightarrow> deliveries s' = deliveries s"
  by (rule ext) (simp add: deliveries_def)

subsection \<open>The close of a broker session\<close>

lemma on_close_unfold:
  "on_close h s =
     broadcast (StatusDisconnected (t_conn (transports s h)))
       (s\<lparr>transports := (transports s)(h := (transports s h)\<lparr>connected := False\<rparr>),
          mqttClients := (mqttClients s)(t_conn (transports s h) := None),
          wsClients := map (\<lambda>(k, ci). (k, ci\<lparr>mqttConnections :=
                          removeAll (t_conn (transports s h)) (mqttConnections ci)\<rparr>))
                         (wsClients s)\<rparr>)"
  by (simp add: on_close_def Let_def)

text \<open>
  Claim C8: when the transport of a broker session reports its close, the entry of the
  session's connection id is removed from the session table (every other entry stays),
  the status \<^verbatim>\<open>disconnected\<close> of that connection id is emitted, and the stored topic
  records are unchanged. Emitted means: the status is handed to the broadcaster once and
  is appended to what each viewer channel has been sent, as often as a broadcast delivers
  to that channel (once to every open channel of the server, when no send throws); an
  exception leaves the handler exactly when a channel blocks. Besides, the connection id
  leaves every viewer's set, all viewers stay registered, and no client changes but for
  the library's flag of the closed one.
\<close>

theorem close_event_keeps_subscriptions:
  "mqttClients (snd (on_close h s)) = (mqttClients s)(t_conn (transports s h) := None) \<and>
   wsClients (snd (on_close h s)) =
     map (\<lambda>(k, ci). (k, ci\<lparr>mqttConnections :=
             removeAll (t_conn (transports s h)) (mqttConnections ci)\<rparr>)) (wsClients s) \<and>
   transports (snd (on_close h s)) = (transports s)(h := (transports s h)\<lparr>connected := False\<rparr>) \<and>
   broadcasts (snd (on_close h s)) = broadcasts s @ [StatusDisconnected (t_conn (transports s h))] \<and>
   (\<forall>i. sent (sockets (snd (on_close h s)) i) =
          sent (sockets s i) @
          replicate (deliveries s i) (StatusDisconnected (t_conn (transports s h)))) \<and>
   fst (on_close h s) = (\<exists>j\<in>set (wss_clients s). blocked (sockets s) j) \<and>
   db_topics (snd (on_close h s)) = db_topics s"
proof -
  let ?s2 = "s\<lparr>transports := (transports s)(h := (transports s h)\<lparr>connected := False\<rparr>),
          mqttClients := (mqttClients s)(t_conn (transports s h) := None),
          wsClients := map (\<lambda>(k, ci). (k, ci\<lparr>mqttConnections :=
                          removeAll (t_conn (transports s h)) (mqttConnections ci)\<rparr>))
                         (wsClients s)\<rparr>"
  have d: "deliveries ?s2 = deliveries s"
    by (rule deliveries_cong) simp_all
  show ?thesis
    unfolding on_close_unfold
    by (simp add: broadcast_frame broadcast_sent broadcast_thrown d)
qed

theorem close_event_keeps_subscriptions_witness:
  "mqttClients stored (KNum 1) = Some 1 \<and>
   mqttClients (snd (on_close 1 stored)) (KNum 1) = None \<and>
   map (\<lambda>(k, v). (k, mqttConnections v)) (wsClients (snd (on_close 1 stored)))
     = [(''ws_a'', []), (''ws_b'', [])] \<and>
   sent (sockets (snd (on_close 1 stored)) 0)
     = [StatusConnected (KNum 1), StatusConnected (KNum 1), StatusDisconnected (KNum 1)] \<and>
   sent (sockets (snd (on_close 1 stored)) 1)
     = [StatusConnected (KNum 1), StatusConnected (KNum 1), StatusDisconnected (KNum 1)] \<and>
   \<not> fst (on_close 1 stored) \<and>
   db_topics (snd (on_close 1 stored)) = [star_row\<lparr>tr_active := False\<rparr>, sensors_row]"
proof -
  have st: "mqttClients stored (KNum 1) = Some 1"
    "t_conn (transports stored 1) = KNum 1"
    "map (\<lambda>(k, v). (k, mqttConnections v)) (wsClients stored)
       = [(''ws_a'', [KNum 1]), (''ws_b'', [KNum 1])]"
    "sent (sockets stored 0) = [StatusConnected (KNum 1), StatusConnected (KNum 1)]"
    "sent (sockets stored 1) = [StatusConnected (KNum 1), StatusConnected (KNum 1)]"
    "wss_clients stored = [0, 1]"
    "readyState (sockets stored 0) = OPEN" "readyState (sockets stored 1) = OPEN"
    "db_topics stored = [star_row\<lparr>tr_active := False\<rparr>, sensors_row]"
    by (simp_all add: stored_def updateTopicStatus_def star_row_def sensors_row_def ex_defs)
  have nb: "\<not> blocked (sockets stored) 0" "\<not> blocked (sockets stored) 1"
    by (simp_all add: blocked_def stored_def updateTopicStatus_def ex_defs)
  have dl: "deliveries stored 0 = 1" "deliveries stored 1 = 1"
    using st nb by (simp_all add: deliveries_def)
  have ws: "map (\<lambda>(k, v). (k, mqttConnections v)) (wsClients (snd (on_close 1 stored)))
     = [(''ws_a'', []), (''ws_b'', [])]"
    using close_event_keeps_subscriptions [of 1 stored]
    by (simp add: stored_def updateTopicStatus_def ex_defs)
  show ?thesis
    using close_event_keeps_subscriptions [of 1 stored] ws st nb dl
    by simp
qed

subsection \<open>Pausing\<close>

text \<open>
  Claim C10: a request to change the pause flag of a connection id that has no entry in
  the session table is answered with the not-found error, and nothing changes: the state
  after the request is the state before it, the pause flag of every client included.
\<close>

theorem pause_unknown_session:
  assumes "mqttClients s cid = None"
  shows "pause_monitoring cid p s = (Error404 ''Connection not found'', s)"
  using assms by (simp add: pause_monitoring_def)

theorem pause_unknown_session_witness:
  "mqttClients one_bound (KStr ''1'') = None \<and>
   pause_monitoring (KStr ''1'') True one_bound = (Error404 ''Connection not found'', one_bound)"
proof -
  have h: "mqttClients one_bound (KStr ''1'') = None"
    by (simp add: ex_defs)
  show ?thesis using h pause_unknown_session [OF h, of True] by simp
qed

lemma one_bound_facts:
  "mqttClients one_bound (KNum 1) = Some 0"
  "t_conn (transports one_bound 0) = KNum 1"
  "\<not> pauseMonitoring (transports one_bound 0)"
  "broadcasts one_bound = [StatusConnected (KNum 1)]"
  "sent (sockets one_bound 0) = [StatusConnected (KNum 1)]"
  "readyState (sockets one_bound 0) = OPEN"
  "wss_clients one_bound = [0, 1]"
  "\<not> blocked (sockets one_bound) 0"
  "\<not> blocked (sockets one_bound) 1"
  by (simp_all add: ex_defs blocked_def)

lemma pause_frame:
  "mqttClients (snd (pause_monitoring cid b s)) = mqttClients s"
  "sockets (snd (pause_monitoring cid b s)) = sockets s"
  "wss_clients (snd (pause_monitoring cid b s)) = wss_clients s"
  "broadcasts (snd (pause_monitoring cid b s)) = broadcasts s"
  "t_conn (transports (snd (pause_monitoring cid b s)) h) = t_conn (transports s h)"
  by (simp_all add: pause_monitoring_def split: option.splits)

lemma pause_flag:
  "pauseMonitoring (transports (snd (pause_monitoring cid b s)) h) =
     (if mqttClients s cid = Some h then b else pauseMonitoring (transports s h))"
  by (simp add: pause_monitoring_def split: option.splits)

lemma sensors_active: "filter tr_active [sensors_row] = [sensors_row]"
  by (simp add: sensors_row_def)

lemma star_active: "filter tr_active [star_row] = [star_row]"
  by (simp add: star_row_def)

lemma paren_active: "filter tr_active [paren_row] = [paren_row]"
  by (simp add: paren_row_def)

lemma star_throws: "matchingWildcards rx ''*/t'' [star_row] = None"
proof -
  have "topicMatches ''*/t'' ''*/#'' = Inl SyntaxError"
    by (simp add: tm_defs)
  then show ?thesis
    by (simp add: star_row_def has_wildcard_def topicMatches_outcome_def)
qed

lemma sensors_matches: "matchingWildcards rx ''sensors/t'' [sensors_row] = Some [sensors_row]"
proof -
  have "topicMatches ''sensors/t'' ''sensors/#'' = Inr True"
    by (simp add: tm_defs)
  then show ?thesis
    by (simp add: sensors_row_def has_wildcard_def topicMatches_outcome_def)
qed

lemma paren_returns: "matchingWildcards quiet_rx ''sensors/t'' [paren_row] = Some [paren_row]"
proof -
  have "topicMatches ''sensors/t'' ''room(1)/#'' = Inl Unsupported"
    by (simp add: tm_defs)
  then show ?thesis
    by (simp add: paren_row_def has_wildcard_def topicMatches_outcome_def quiet_rx_def)
qed

text \<open>
  Claim C6, as the specification states it: while the pause flag of a broker session is
  true no message received on that session is forwarded, and once the flag is false again
  a message received next is forwarded. Both halves fail. The flag is a property of the
  client object that the session table holds for the connection id: after both viewers
  have connected to broker 1 the table holds the client 1, the route answers that
  connection 1 is paused, and the client 0, still connected for the same connection id,
  forwards its message. And the handler reads the topic records and checks them against
  the topic before it looks at the flag: with the flag set and cleared again, a message
  whose read of the topic records is rejected is not forwarded, nor is a message that
  arrives while the pattern \<^verbatim>\<open>*/#\<close> is stored, for which the regular expression
  cannot be compiled.
\<close>

theorem pause_flag_counterexample:
  "fst (pause_monitoring (KNum 1) True both_bound) = Json200 ''Message monitoring paused'' \<and>
   t_conn (transports (snd (pause_monitoring (KNum 1) True both_bound)) 0) = KNum 1 \<and>
   end_calls (transports (snd (pause_monitoring (KNum 1) True both_bound)) 0) = 0 \<and>
   broadcasts (on_message_resumed arrival 50 (Some [sensors_row]) quiet_rx
       (snd (pause_monitoring (KNum 1) True both_bound)))
     = broadcasts both_bound @ [MessageEvt reading] \<and>
   \<not> pauseMonitoring (transports paused_then_resumed 0) \<and>
   on_message_resumed arrival 50 None quiet_rx paused_then_resumed = paused_then_resumed \<and>
   on_message_resumed (on_message_received 0 ''*/t'' ''21'' 0 False) 50 (Some [star_row]) quiet_rx
       paused_then_resumed = paused_then_resumed"
proof -
  have bb: "mqttClients both_bound (KNum 1) = Some 1" "t_conn (transports both_bound 0) = KNum 1"
    "end_calls (transports both_bound 0) = 0" "\<not> pauseMonitoring (transports both_bound 0)"
    by (simp_all add: ex_defs)
  have r: "fst (pause_monitoring (KNum 1) True both_bound) = Json200 ''Message monitoring paused''"
    "end_calls (transports (snd (pause_monitoring (KNum 1) True both_bound)) 0) = 0"
    using bb by (simp_all add: pause_monitoring_def)
  have f: "\<not> pauseMonitoring (transports (snd (pause_monitoring (KNum 1) True both_bound)) 0)"
    using bb by (simp add: pause_flag)
  have "broadcasts (on_message_resumed arrival 50 (Some [sensors_row]) quiet_rx
       (snd (pause_monitoring (KNum 1) True both_bound)))
     = broadcasts both_bound @ [MessageEvt reading]"
    using f bb sensors_active
    by (simp add: on_message_resumed_def arrival_def on_message_received_def sensors_matches
          message_event_def reading_def broadcast_frame pause_frame
          del: matchingWildcards.simps)
  moreover have "\<not> pauseMonitoring (transports paused_then_resumed 0)"
    by (simp add: paused_then_resumed_def paused_def pause_flag pause_frame one_bound_facts)
  moreover have "on_message_resumed arrival 50 None quiet_rx paused_then_resumed = paused_then_resumed"
    by (simp add: on_message_resumed_def)
  moreover have "on_message_resumed (on_message_received 0 ''*/t'' ''21'' 0 False) 50
       (Some [star_row]) quiet_rx paused_then_resumed = paused_then_resumed"
    using star_active
    by (simp add: on_message_resumed_def on_message_received_def star_throws
          del: matchingWildcards.simps)
  ultimately show ?thesis using r bb by (simp add: pause_frame)
qed

text \<open>
  Claim C6, amended: the pause flag belongs to the client object, not to the connection
  id. The route sets the flag of the client that the session table holds for the
  connection id to the requested value and changes the flag of no other client. A
  message is never forwarded to the broadcaster when the client that received it has its
  flag set at the moment the handler resumes after its read of the topic records: the
  state does not change. When the read is rejected the message is dropped, whatever the
  flag. When that flag is false, the read succeeds and the check of the stored wildcard
  patterns raises no error, the message is forwarded: it is handed to the broadcaster
  once and is appended to what each viewer channel has been sent as often as a broadcast
  delivers to that channel.
\<close>

theorem pause_gates_forwarding:
  "(pauseMonitoring (transports s (pm_client p)) \<longrightarrow> on_message_resumed p now db rx s = s) \<and>
   (db = None \<longrightarrow> on_message_resumed p now db rx s = s) \<and>
   (\<not> pauseMonitoring (transports s (pm_client p)) \<and> db = Some rows \<and>
    matchingWildcards rx (pm_topic p) (filter tr_active rows) = Some mw \<longrightarrow>
      broadcasts (on_message_resumed p now db rx s) = broadcasts s @
        [MessageEvt \<lparr> connection_id = t_conn (transports s (pm_client p)), topic = pm_topic p,
           message = pm_payload p, qos = pm_qos p, retained = pm_retain p, timestamp = now \<rparr>] \<and>
      (\<forall>i. sent (sockets (on_message_resumed p now db rx s) i) = sent (sockets s i) @
         replicate (deliveries s i)
           (MessageEvt \<lparr> connection_id = t_conn (transports s (pm_client p)), topic = pm_topic p,
              message = pm_payload p, qos = pm_qos p, retained = pm_retain p,
              timestamp = now \<rparr>))) \<and>
   (mqttClients s cid = Some h \<longrightarrow>
      pauseMonitoring (transports (snd (pause_monitoring cid b s)) h) = b \<and>
      (\<forall>h'. h' \<noteq> h \<longrightarrow>
         pauseMonitoring (transports (snd (pause_monitoring cid b s)) h')
           = pauseMonitoring (transports s h')))"
proof (intro conjI impI)
  assume "pauseMonitoring (transports s (pm_client p))"
  then show "on_message_resumed p now db rx s = s"
    by (simp add: on_message_resumed_def split: option.splits)
next
  assume "db = None"
  then show "on_message_resumed p now db rx s = s"
    by (simp add: on_message_resumed_def)
next
  assume a: "\<not> pauseMonitoring (transports s (pm_client p)) \<and> db = Some rows \<and>
    matchingWildcards rx (pm_topic p) (filter tr_active rows) = Some mw"
  then have eq: "on_message_resumed p now db rx s = snd (broadcast (message_event p now s) s)"
    by (simp add: on_message_resumed_def)
  show "broadcasts (on_message_resumed p now db rx s) = broadcasts s @
        [MessageEvt \<lparr> connection_id = t_conn (transports s (pm_client p)), topic = pm_topic p,
           message = pm_payload p, qos = pm_qos p, retained = pm_retain p, timestamp = now \<rparr>]"
    unfolding eq by (simp add: broadcast_frame message_event_def)
  show "\<forall>i. sent (sockets (on_message_resumed p now db rx s) i) = sent (sockets s i) @
         replicate (deliveries s i)
           (MessageEvt \<lparr> connection_id = t_conn (transports s (pm_client p)), topic = pm_topic p,
              message = pm_payload p, qos = pm_qos p, retained = pm_retain p,
              timestamp = now \<rparr>)"
    unfolding eq by (simp add: broadcast_sent message_event_def)
next
  assume "mqttClients s cid = Some h"
  then show "pauseMonitoring (transports (snd (pause_monitoring cid b s)) h) = b"
    by (simp add: pause_flag)
next
  assume "mqttClients s cid = Some h"
  then show "\<forall>h'. h' \<noteq> h \<longrightarrow>
         pauseMonitoring (transports (snd (pause_monitoring cid b s)) h')
           = pauseMonitoring (transports s h')"
    by (simp add: pause_flag)
qed

theorem pause_gates_forwarding_witness:
  "mqttClients one_bound (KNum 1) = Some 0 \<and>
   pauseMonitoring (transports paused 0) \<and>
   on_message_resumed arrival 50 (Some [sensors_row]) quiet_rx paused = paused \<and>
   on_message_resumed arrival 50 None quiet_rx one_bound = one_bound \<and>
   \<not> pauseMonitoring (transports paused_then_resumed 0) \<and>
   broadcasts (on_message_resumed arrival 50 (Some [sensors_row]) quiet_rx paused_then_resumed)
     = [StatusConnected (KNum 1), MessageEvt reading] \<and>
   sent (sockets (on_message_resumed arrival 50 (Some [sensors_row]) quiet_rx paused_then_resumed) 0)
     = [StatusConnected (KNum 1), MessageEvt reading] \<and>
   broadcasts (on_message_resumed arrival 50 (Some [paren_row]) quiet_rx paused_then_resumed)
     = [StatusConnected (KNum 1), MessageEvt reading]"
proof -
  note thm0 = pause_gates_forwarding [where s = one_bound and cid = "KNum 1" and h = 0 and b = True]
  note thm1 = pause_gates_forwarding [where s = paused and p = arrival and now = 50
      and db = "Some [sensors_row]" and rx = quiet_rx]
  note thm2 = pause_gates_forwarding [where s = one_bound and p = arrival and now = 50
      and db = None and rx = quiet_rx]
  note thm3 = pause_gates_forwarding [where s = paused_then_resumed and p = arrival and now = 50
      and db = "Some [sensors_row]" and rx = quiet_rx and rows = "[sensors_row]"
      and mw = "[sensors_row]"]
  note thm4 = pause_gates_forwarding [where s = paused_then_resumed and p = arrival and now = 50
      and db = "Some [paren_row]" and rx = quiet_rx and rows = "[paren_row]"
      and mw = "[paren_row]"]
  have c: "pm_client arrival = 0" "pm_topic arrival = ''sensors/t''"
    "pm_payload arrival = ''21''" "pm_qos arrival = 0" "\<not> pm_retain arrival"
    by (simp_all add: arrival_def on_message_received_def)
  have p1: "pauseMonitoring (transports paused 0)"
    using thm0 one_bound_facts(1) by (simp add: paused_def)
  have p2: "\<not> pauseMonitoring (transports paused_then_resumed 0)"
    "t_conn (transports paused_then_resumed 0) = KNum 1"
    "broadcasts paused_then_resumed = [StatusConnected (KNum 1)]"
    "sent (sockets paused_then_resumed 0) = [StatusConnected (KNum 1)]"
    "deliveries paused_then_resumed 0 = 1"
    using one_bound_facts
    by (simp_all add: paused_then_resumed_def paused_def pause_flag pause_frame deliveries_def)
  note act = sensors_active paren_active
  have "on_message_resumed arrival 50 (Some [sensors_row]) quiet_rx paused = paused"
    using thm1 p1 c by simp
  moreover have "on_message_resumed arrival 50 None quiet_rx one_bound = one_bound"
    using thm2 by simp
  moreover have "broadcasts (on_message_resumed arrival 50 (Some [sensors_row]) quiet_rx paused_then_resumed)
     = [StatusConnected (KNum 1), MessageEvt reading]"
    "sent (sockets (on_message_resumed arrival 50 (Some [sensors_row]) quiet_rx paused_then_resumed) 0)
     = [StatusConnected (KNum 1), MessageEvt reading]"
    using thm3 p2 c act sensors_matches [of quiet_rx]
    by (simp_all add: reading_def del: matchingWildcards.simps)
  moreover have "broadcasts (on_message_resumed arrival 50 (Some [paren_row]) quiet_rx paused_then_resumed)
     = [StatusConnected (KNum 1), MessageEvt reading]"
    using thm4 p2 c act paren_returns
    by (simp add: reading_def del: matchingWildcards.simps)
  ultimately show ?thesis using p1 p2(1) one_bound_facts(1) by simp
qed

end
